theory Spec2Isabelle
  imports Complex_Main "HOL-Library.Char_ord" "HOL-Library.List_Lexorder"
begin

section \<open>The table: columns of a pandas DataFrame\<close>

text \<open>
  The engine of \<^verbatim>\<open>azure_diet_processor.py\<close> keeps one pandas DataFrame in
  \<^verbatim>\<open>self.data\<close>. A DataFrame is modelled column by column, in column order, as
  \<^verbatim>\<open>read_csv\<close> builds it: a float64 column holds numbers and NaN, an object
  column holds text and NaN. NaN, the missing value, is \<open>None\<close>. Numbers are exact rationals:
  the arithmetic of the model is exact where float64 rounds. The pandas methods the engine
  calls are modelled after their documented behaviour (pandas 2): they are the functions of
  the next section, and each engine method below is written over them line by line.
  An exception is a value of \<open>error\<close>; a method that can raise returns \<open>error + result\<close>.
\<close>

datatype column = NumCol "rat option list" | ObjCol "string option list"

type_synonym dataframe = "(string \<times> column) list"

datatype error = TypeError | KeyError | AttributeError | ReError | ResourceNotFoundError | ParserError

record processor =
  data :: "dataframe option"
  container_name :: string
  blob_name :: string

fun col_len :: "column \<Rightarrow> nat" where
  "col_len (NumCol xs) = length xs"
| "col_len (ObjCol xs) = length xs"

text \<open>\<^verbatim>\<open>self.data[col] = series\<close>: replaces the column of that name where it stands.\<close>

fun set_col :: "string \<Rightarrow> column \<Rightarrow> dataframe \<Rightarrow> dataframe" where
  "set_col k v [] = [(k, v)]"
| "set_col k v ((a, b) # r) = (if a = k then (k, v) # r else (a, b) # set_col k v r)"

section \<open>pandas primitives used by the engine\<close>

fun dropna :: "'a option list \<Rightarrow> 'a list" where
  "dropna [] = []"
| "dropna (None # xs) = dropna xs"
| "dropna (Some v # xs) = v # dropna xs"

definition fillna :: "'a \<Rightarrow> 'a option list \<Rightarrow> 'a option list" where
  "fillna v xs = map (\<lambda>x. case x of None \<Rightarrow> Some v | Some y \<Rightarrow> Some y) xs"

text \<open>\<^verbatim>\<open>Series.mean()\<close> skips NaN; with no value left the mean is NaN.\<close>

definition mean :: "rat option list \<Rightarrow> rat option" where
  "mean xs = (let vs = dropna xs in
     if vs = [] then None else Some (sum_list vs / of_nat (length vs)))"

text \<open>\<^verbatim>\<open>Series.unique()\<close>: the distinct values in order of first appearance.\<close>

fun unique :: "'a list \<Rightarrow> 'a list" where
  "unique [] = []"
| "unique (x # xs) = x # filter (\<lambda>y. y \<noteq> x) (unique xs)"

text \<open>
  \<^verbatim>\<open>Series.mode()\<close> drops NaN, keeps the values of the highest count and returns
  them sorted in ascending order.
\<close>

definition max_count :: "'a list \<Rightarrow> nat" where
  "max_count vs = fold max (map (count_list vs) vs) 0"

definition mode :: "('a::linorder) option list \<Rightarrow> 'a list" where
  "mode xs = (let vs = dropna xs in
     sort (unique (filter (\<lambda>v. count_list vs v = max_count vs) vs)))"

text \<open>
  \<^verbatim>\<open>Series.mean()\<close> on a column: an object column that holds text raises TypeError.
\<close>

fun series_mean :: "column \<Rightarrow> error + rat option" where
  "series_mean (NumCol xs) = Inr (mean xs)"
| "series_mean (ObjCol xs) = (if dropna xs = [] then Inr None else Inl TypeError)"

text \<open>\<^verbatim>\<open>Series.fillna(mean_val)\<close>: filling with NaN changes nothing.\<close>

fun fillna_mean :: "rat option \<Rightarrow> column \<Rightarrow> column" where
  "fillna_mean None c = c"
| "fillna_mean (Some m) (NumCol xs) = NumCol (fillna m xs)"
| "fillna_mean (Some m) (ObjCol xs) = ObjCol xs"

section \<open>Cleaning\<close>

definition numeric_cols :: "string list" where
  "numeric_cols = [''Protein(g)'', ''Carbs(g)'', ''Fat(g)'']"

definition categorical_cols :: "string list" where
  "categorical_cols = [''Diet_type'', ''Cuisine_type'']"

text \<open>
  The first loop of \<^verbatim>\<open>_clean_data\<close>. The result is the exception raised, if any,
  and the table as the loop left it.
\<close>

fun clean_numeric :: "string list \<Rightarrow> dataframe \<Rightarrow> error option \<times> dataframe" where
  "clean_numeric [] df = (None, df)"
| "clean_numeric (col # cols) df =
     (case map_of df col of
        None \<Rightarrow> clean_numeric cols df
      | Some c \<Rightarrow>
          (case series_mean c of
             Inl e \<Rightarrow> (Some e, df)
           | Inr mean_val \<Rightarrow> clean_numeric cols (set_col col (fillna_mean mean_val c) df)))"

text \<open>
  The body of the second loop:
  \<^verbatim>\<open>mode_value = self.data[col].mode()\<close>,
  \<^verbatim>\<open>fill_value = mode_value[0] if len(mode_value) > 0 else "Unknown"\<close>,
  \<^verbatim>\<open>self.data[col].fillna(fill_value)\<close>.
  A float64 column has an empty mode only when every entry is NaN; filling it with text
  replaces every entry and makes it an object column, and with no entry at all nothing is
  filled.
\<close>

fun fill_categorical :: "column \<Rightarrow> column" where
  "fill_categorical (ObjCol xs) =
     (case mode xs of
        [] \<Rightarrow> ObjCol (fillna ''Unknown'' xs)
      | m # _ \<Rightarrow> ObjCol (fillna m xs))"
| "fill_categorical (NumCol xs) =
     (case mode xs of
        [] \<Rightarrow> (if xs = [] then NumCol xs else ObjCol (map (\<lambda>_. Some ''Unknown'') xs))
      | m # _ \<Rightarrow> NumCol (fillna m xs))"

fun clean_categorical :: "string list \<Rightarrow> dataframe \<Rightarrow> dataframe" where
  "clean_categorical [] df = df"
| "clean_categorical (col # cols) df =
     (case map_of df col of
        None \<Rightarrow> clean_categorical cols df
      | Some c \<Rightarrow> clean_categorical cols (set_col col (fill_categorical c) df))"

text \<open>
  \<^verbatim>\<open>_clean_data\<close>: the exception raised, if any, and the processor afterwards.
\<close>

definition clean_data :: "processor \<Rightarrow> error option \<times> processor" where
  "clean_data p =
     (case data p of
        None \<Rightarrow> (None, p)
      | Some df \<Rightarrow>
          (case clean_numeric numeric_cols df of
             (Some e, df') \<Rightarrow> (Some e, p\<lparr>data := Some df'\<rparr>)
           | (None, df') \<Rightarrow>
               (None, p\<lparr>data := Some (clean_categorical categorical_cols df')\<rparr>)))"

section \<open>Values, rows and rounding\<close>

text \<open>
  The values the engine hands to its caller: a float, NaN, text, an integer, a list.
  A Python dict is an association list in insertion order.
\<close>

datatype val = VNum rat | VNaN | VStr string | VInt int | VList "val list"

type_synonym dict = "(string \<times> val) list"

fun opt_val :: "rat option \<Rightarrow> val" where
  "opt_val None = VNaN"
| "opt_val (Some r) = VNum r"

fun col_vals :: "column \<Rightarrow> val list" where
  "col_vals (NumCol xs) = map opt_val xs"
| "col_vals (ObjCol xs) = map (\<lambda>x. case x of None \<Rightarrow> VNaN | Some s \<Rightarrow> VStr s) xs"

text \<open>\<^verbatim>\<open>len(self.data)\<close>; every column of a DataFrame has that length.\<close>

definition nrows :: "dataframe \<Rightarrow> nat" where
  "nrows df = (case df of [] \<Rightarrow> 0 | (k, c) # _ \<Rightarrow> col_len c)"

definition wf_df :: "dataframe \<Rightarrow> bool" where
  "wf_df df = list_all (\<lambda>kc. col_len (snd kc) = nrows df) df"

text \<open>\<^verbatim>\<open>==\<close> on cells: NaN equals nothing.\<close>

definition val_eq :: "val \<Rightarrow> val \<Rightarrow> bool" where
  "val_eq a b = (a \<noteq> VNaN \<and> b \<noteq> VNaN \<and> a = b)"

text \<open>Boolean indexing: the positions a mask keeps, and a column cut down to them.\<close>

definition rows_where :: "bool list \<Rightarrow> nat list" where
  "rows_where msk = map fst (filter snd (zip [0..<length msk] msk))"

fun take_rows :: "bool list \<Rightarrow> column \<Rightarrow> column" where
  "take_rows msk (NumCol xs) = NumCol (map fst (filter snd (zip xs msk)))"
| "take_rows msk (ObjCol xs) = ObjCol (map fst (filter snd (zip xs msk)))"

text \<open>
  The cell of a column at a row. On a DataFrame the row is always in range; the model
  answers NaN otherwise so that the function is specified everywhere.
\<close>

definition cell :: "column \<Rightarrow> nat \<Rightarrow> val" where
  "cell c i = (if i < col_len c then col_vals c ! i else VNaN)"

text \<open>\<^verbatim>\<open>recipe.get(name, default)\<close> on the row \<open>i\<close> of the table.\<close>

definition row_get :: "dataframe \<Rightarrow> nat \<Rightarrow> string \<Rightarrow> val \<Rightarrow> val" where
  "row_get df i name dflt = (case map_of df name of None \<Rightarrow> dflt | Some c \<Rightarrow> cell c i)"

definition dict_get :: "dict \<Rightarrow> string \<Rightarrow> val \<Rightarrow> val" where
  "dict_get d k dflt = (case map_of d k of None \<Rightarrow> dflt | Some v \<Rightarrow> v)"

text \<open>\<^verbatim>\<open>round(x, 2)\<close>: to the nearest hundredth, a tie going to the even one.\<close>

definition round_half_even :: "rat \<Rightarrow> int" where
  "round_half_even x =
     (let f = \<lfloor>x\<rfloor>; d = x - of_int f in
      if d < 1 / 2 then f else if 1 / 2 < d then f + 1 else if even f then f else f + 1)"

definition round2 :: "rat \<Rightarrow> rat" where
  "round2 x = of_int (round_half_even (x * 100)) / 100"

fun py_round :: "val \<Rightarrow> error + val" where
  "py_round (VNum r) = Inr (VNum (round2 r))"
| "py_round VNaN = Inr VNaN"
| "py_round (VInt i) = Inr (VInt i)"
| "py_round (VStr s) = Inl TypeError"
| "py_round (VList l) = Inl TypeError"

text \<open>A loop that builds a list and stops at the first exception.\<close>

fun emap :: "('a \<Rightarrow> error + 'b) \<Rightarrow> 'a list \<Rightarrow> error + 'b list" where
  "emap f [] = Inr []"
| "emap f (x # xs) =
     (case f x of
        Inl e \<Rightarrow> Inl e
      | Inr y \<Rightarrow> (case emap f xs of Inl e \<Rightarrow> Inl e | Inr ys \<Rightarrow> Inr (y # ys)))"

section \<open>Macronutrient averages and diet comparison\<close>

definition macro_cols :: "string list" where
  "macro_cols = [''Protein(g)'', ''Carbs(g)'', ''Fat(g)'']"

text \<open>\<^verbatim>\<open>col.replace("(g)", "")\<close>\<close>

fun replace_g :: "string \<Rightarrow> string" where
  "replace_g (a # b # c # rest) =
     (if a = CHR ''('' \<and> b = CHR ''g'' \<and> c = CHR '')'' then replace_g rest
      else a # replace_g (b # c # rest))"
| "replace_g s = s"

text \<open>The mask \<^verbatim>\<open>self.data["Diet_type"] == diet_type\<close>.\<close>

definition diet_mask :: "column \<Rightarrow> val \<Rightarrow> bool list" where
  "diet_mask dc diet_type = map (\<lambda>v. val_eq v diet_type) (col_vals dc)"

text \<open>
  The inner loop of \<^verbatim>\<open>get_macronutrient_averages\<close>:
  \<^verbatim>\<open>averages[col.replace("(g)", "")] = round(diet_data[col].mean(), 2)\<close>.
\<close>

definition group_average :: "dataframe \<Rightarrow> bool list \<Rightarrow> string \<Rightarrow> error + string \<times> val" where
  "group_average df msk col =
     (case map_of df col of
        None \<Rightarrow> Inl KeyError
      | Some c \<Rightarrow>
          (case series_mean (take_rows msk c) of
             Inl e \<Rightarrow> Inl e
           | Inr m \<Rightarrow>
               (case py_round (opt_val m) of
                  Inl e \<Rightarrow> Inl e
                | Inr v \<Rightarrow> Inr (replace_g col, v))))"

definition get_macronutrient_averages :: "processor \<Rightarrow> error + (val \<times> dict) list" where
  "get_macronutrient_averages p =
     (case data p of
        None \<Rightarrow> Inr []
      | Some df \<Rightarrow>
          (let available_cols = filter (\<lambda>col. col \<in> set (map fst df)) macro_cols in
           case map_of df ''Diet_type'' of
             None \<Rightarrow> Inr []
           | Some dc \<Rightarrow>
               if available_cols = [] then Inr []
               else emap (\<lambda>diet_type.
                      case emap (group_average df (diet_mask dc diet_type)) available_cols of
                        Inl e \<Rightarrow> Inl e
                      | Inr averages \<Rightarrow> Inr (diet_type, averages))
                    (unique (col_vals dc))))"

text \<open>
  The loop body of \<^verbatim>\<open>get_diet_comparison_data\<close>; it reads
  \<^verbatim>\<open>self.data["Diet_type"]\<close> again for the row count.
\<close>

definition diet_info :: "processor \<Rightarrow> val \<times> dict \<Rightarrow> error + dict" where
  "diet_info p entry =
     (case entry of (diet_type, macros) \<Rightarrow>
        (case data p of
           None \<Rightarrow> Inl TypeError
         | Some df \<Rightarrow>
             (case map_of df ''Diet_type'' of
                None \<Rightarrow> Inl KeyError
              | Some dc \<Rightarrow>
                  Inr [(''diet_type'', diet_type),
                       (''protein'', dict_get macros ''Protein'' (VInt 0)),
                       (''carbs'', dict_get macros ''Carbs'' (VInt 0)),
                       (''fat'', dict_get macros ''Fat'' (VInt 0)),
                       (''total_recipes'',
                          VInt (int (length (filter id (diet_mask dc diet_type)))))])))"

definition get_diet_comparison_data :: "processor \<Rightarrow> error + dict list" where
  "get_diet_comparison_data p =
     (case get_macronutrient_averages p of
        Inl e \<Rightarrow> Inl e
      | Inr averages \<Rightarrow> emap (diet_info p) averages)"

section \<open>Top recipes by nutrient\<close>

text \<open>
  \<^verbatim>\<open>DataFrame.nlargest(n, column)\<close> with the default \<^verbatim>\<open>keep='first'\<close>: the rows
  in descending order of the column, the first occurrence first among equal values, NaN
  last, cut to \<open>n\<close> rows. An object column is refused with TypeError. The model orders the
  rows by a stable insertion sort and returns their positions.
\<close>

fun desc_ge :: "rat option \<Rightarrow> rat option \<Rightarrow> bool" where
  "desc_ge (Some a) (Some b) = (b \<le> a)"
| "desc_ge (Some a) None = True"
| "desc_ge None (Some b) = False"
| "desc_ge None None = True"

fun insert_desc :: "rat option \<times> nat \<Rightarrow> (rat option \<times> nat) list \<Rightarrow> (rat option \<times> nat) list" where
  "insert_desc x [] = [x]"
| "insert_desc x (y # ys) =
     (if desc_ge (fst x) (fst y) then x # y # ys else y # insert_desc x ys)"

definition sort_desc :: "(rat option \<times> nat) list \<Rightarrow> (rat option \<times> nat) list" where
  "sort_desc xs = foldr insert_desc xs []"

definition nlargest :: "int \<Rightarrow> column \<Rightarrow> error + nat list" where
  "nlargest n c =
     (case c of
        ObjCol xs \<Rightarrow> Inl TypeError
      | NumCol xs \<Rightarrow>
          Inr (if n \<le> 0 then []
               else take (nat n) (map snd (sort_desc (zip xs [0..<length xs])))))"

definition top_recipe_info :: "dataframe \<Rightarrow> column \<Rightarrow> string \<Rightarrow> nat \<Rightarrow> error + dict" where
  "top_recipe_info df c nutrient i =
     (case py_round (cell c i) of
        Inl e \<Rightarrow> Inl e
      | Inr v \<Rightarrow>
          Inr [(''recipe_name'', row_get df i ''Recipe_name'' (VStr ''Unknown'')),
               (''diet_type'', row_get df i ''Diet_type'' (VStr ''Unknown'')),
               (''cuisine_type'', row_get df i ''Cuisine_type'' (VStr ''Unknown'')),
               (''nutrient_value'', v),
               (''nutrient_type'', VStr nutrient)])"

definition get_top_recipes_by_nutrient :: "string \<Rightarrow> int \<Rightarrow> processor \<Rightarrow> error + dict list" where
  "get_top_recipes_by_nutrient nutrient n p =
     (case data p of
        None \<Rightarrow> Inr []
      | Some df \<Rightarrow>
          (let nutrient_col = nutrient @ ''(g)'' in
           case map_of df nutrient_col of
             None \<Rightarrow> Inr []
           | Some c \<Rightarrow>
               (case nlargest n c of
                  Inl e \<Rightarrow> Inl e
                | Inr top_recipes \<Rightarrow> emap (top_recipe_info df c nutrient) top_recipes)))"

text \<open>The caller, \<^verbatim>\<open>main\<close> of \<^verbatim>\<open>__init__.py\<close>: \<^verbatim>\<open>n = max(1, min(n, 100))\<close>.\<close>

definition clamp_n :: "int \<Rightarrow> int" where
  "clamp_n n = max 1 (min n 100)"

section \<open>Cuisine distribution, nutrient ranges and summary\<close>

text \<open>
  \<^verbatim>\<open>Series.value_counts()\<close>: NaN dropped, one count per distinct value, the highest
  count first.
\<close>

fun insert_count :: "val \<times> nat \<Rightarrow> (val \<times> nat) list \<Rightarrow> (val \<times> nat) list" where
  "insert_count x [] = [x]"
| "insert_count x (y # ys) =
     (if snd y \<le> snd x then x # y # ys else y # insert_count x ys)"

definition value_counts :: "val list \<Rightarrow> (val \<times> nat) list" where
  "value_counts vals =
     (let vs = filter (\<lambda>v. v \<noteq> VNaN) vals in
      foldr insert_count (map (\<lambda>v. (v, count_list vs v)) (unique vs)) [])"

definition get_cuisine_distribution :: "processor \<Rightarrow> error + (val \<times> (val \<times> nat) list) list" where
  "get_cuisine_distribution p =
     (case data p of
        None \<Rightarrow> Inr []
      | Some df \<Rightarrow>
          (case map_of df ''Diet_type'' of
             None \<Rightarrow> Inr []
           | Some dc \<Rightarrow>
               (case map_of df ''Cuisine_type'' of
                  None \<Rightarrow> Inr []
                | Some cc \<Rightarrow>
                    Inr (map (\<lambda>diet_type.
                           (diet_type,
                            value_counts (col_vals (take_rows (diet_mask dc diet_type) cc))))
                         (unique (col_vals dc))))))"

text \<open>
  \<^verbatim>\<open>Series.min()\<close>, \<^verbatim>\<open>max()\<close> and \<^verbatim>\<open>median()\<close> skip NaN and answer NaN when
  nothing is left. On an object column that holds text, min and max are the least and the
  greatest text, and the median raises TypeError.
\<close>

fun series_min :: "column \<Rightarrow> val" where
  "series_min (NumCol xs) = (case dropna xs of [] \<Rightarrow> VNaN | v # vs \<Rightarrow> VNum (fold min vs v))"
| "series_min (ObjCol xs) = (case dropna xs of [] \<Rightarrow> VNaN | v # vs \<Rightarrow> VStr (fold min vs v))"

fun series_max :: "column \<Rightarrow> val" where
  "series_max (NumCol xs) = (case dropna xs of [] \<Rightarrow> VNaN | v # vs \<Rightarrow> VNum (fold max vs v))"
| "series_max (ObjCol xs) = (case dropna xs of [] \<Rightarrow> VNaN | v # vs \<Rightarrow> VStr (fold max vs v))"

definition median :: "rat list \<Rightarrow> rat option" where
  "median vs =
     (let s = sort vs; n = length s in
      if n = 0 then None
      else if odd n then Some (s ! (n div 2))
      else Some ((s ! (n div 2 - 1) + s ! (n div 2)) / 2))"

fun series_median :: "column \<Rightarrow> error + rat option" where
  "series_median (NumCol xs) = Inr (median (dropna xs))"
| "series_median (ObjCol xs) = (if dropna xs = [] then Inr None else Inl TypeError)"

definition nutrient_cols :: "string list" where
  "nutrient_cols = [''Protein(g)'', ''Carbs(g)'', ''Fat(g)'']"

text \<open>
  The dict literal of \<^verbatim>\<open>get_nutrient_ranges\<close>, its four entries computed in the
  order written.
\<close>

definition range_info :: "column \<Rightarrow> error + dict" where
  "range_info c =
     (case py_round (series_min c) of
        Inl e \<Rightarrow> Inl e
      | Inr mn \<Rightarrow>
     (case py_round (series_max c) of
        Inl e \<Rightarrow> Inl e
      | Inr mx \<Rightarrow>
     (case series_mean c of
        Inl e \<Rightarrow> Inl e
      | Inr av \<Rightarrow>
     (case py_round (opt_val av) of
        Inl e \<Rightarrow> Inl e
      | Inr avg \<Rightarrow>
     (case series_median c of
        Inl e \<Rightarrow> Inl e
      | Inr md \<Rightarrow>
     (case py_round (opt_val md) of
        Inl e \<Rightarrow> Inl e
      | Inr med \<Rightarrow>
          Inr [(''min'', mn), (''max'', mx), (''average'', avg), (''median'', med)]))))))"

fun ranges_loop :: "dataframe \<Rightarrow> string list \<Rightarrow> error + (string \<times> dict) list" where
  "ranges_loop df [] = Inr []"
| "ranges_loop df (col # cols) =
     (case map_of df col of
        None \<Rightarrow> ranges_loop df cols
      | Some c \<Rightarrow>
          (case range_info c of
             Inl e \<Rightarrow> Inl e
           | Inr info \<Rightarrow>
               (case ranges_loop df cols of
                  Inl e \<Rightarrow> Inl e
                | Inr rest \<Rightarrow> Inr ((replace_g col, info) # rest))))"

definition get_nutrient_ranges :: "processor \<Rightarrow> error + (string \<times> dict) list" where
  "get_nutrient_ranges p =
     (case data p of None \<Rightarrow> Inr [] | Some df \<Rightarrow> ranges_loop df nutrient_cols)"

text \<open>\<^verbatim>\<open>Series.mode()\<close> and \<^verbatim>\<open>Series.nunique()\<close> on a column.\<close>

fun series_mode :: "column \<Rightarrow> val list" where
  "series_mode (NumCol xs) = map VNum (mode xs)"
| "series_mode (ObjCol xs) = map VStr (mode xs)"

definition nunique :: "column \<Rightarrow> nat" where
  "nunique c = length (unique (filter (\<lambda>v. v \<noteq> VNaN) (col_vals c)))"

definition most_common :: "dataframe \<Rightarrow> string \<Rightarrow> val" where
  "most_common df col =
     (case map_of df col of
        None \<Rightarrow> VStr ''Unknown''
      | Some c \<Rightarrow> (case series_mode c of [] \<Rightarrow> VStr ''Unknown'' | m # _ \<Rightarrow> m))"

definition get_diet_summary :: "processor \<Rightarrow> error + dict" where
  "get_diet_summary p =
     (case data p of
        None \<Rightarrow> Inr []
      | Some df \<Rightarrow>
          Inr [(''total_recipes'', VInt (int (nrows df))),
               (''total_diet_types'',
                  (case map_of df ''Diet_type'' of
                     None \<Rightarrow> VInt 0 | Some c \<Rightarrow> VInt (int (nunique c)))),
               (''total_cuisine_types'',
                  (case map_of df ''Cuisine_type'' of
                     None \<Rightarrow> VInt 0 | Some c \<Rightarrow> VInt (int (nunique c)))),
               (''diet_types'',
                  (case map_of df ''Diet_type'' of
                     None \<Rightarrow> VList [] | Some c \<Rightarrow> VList (unique (col_vals c)))),
               (''most_common_diet'', most_common df ''Diet_type''),
               (''most_common_cuisine'', most_common df ''Cuisine_type'')])"

section \<open>Recipes by diet type and search\<close>

text \<open>
  The dict built for a row by \<^verbatim>\<open>get_recipes_by_diet_type\<close> and, with the diet
  type added, by \<^verbatim>\<open>search_recipes\<close>. \<^verbatim>\<open>round\<close> raises TypeError on text.
\<close>

definition recipe_info :: "bool \<Rightarrow> dataframe \<Rightarrow> nat \<Rightarrow> error + dict" where
  "recipe_info with_diet df i =
     (case py_round (row_get df i ''Protein(g)'' (VInt 0)) of
        Inl e \<Rightarrow> Inl e
      | Inr protein \<Rightarrow>
     (case py_round (row_get df i ''Carbs(g)'' (VInt 0)) of
        Inl e \<Rightarrow> Inl e
      | Inr carbs \<Rightarrow>
     (case py_round (row_get df i ''Fat(g)'' (VInt 0)) of
        Inl e \<Rightarrow> Inl e
      | Inr fat \<Rightarrow>
          Inr ([(''recipe_name'', row_get df i ''Recipe_name'' (VStr ''Unknown''))]
               @ (if with_diet
                  then [(''diet_type'', row_get df i ''Diet_type'' (VStr ''Unknown''))]
                  else [])
               @ [(''cuisine_type'', row_get df i ''Cuisine_type'' (VStr ''Unknown'')),
                  (''protein'', protein), (''carbs'', carbs), (''fat'', fat)]))))"

definition get_recipes_by_diet_type :: "string \<Rightarrow> processor \<Rightarrow> error + dict list" where
  "get_recipes_by_diet_type diet_type p =
     (case data p of
        None \<Rightarrow> Inr []
      | Some df \<Rightarrow>
          (case map_of df ''Diet_type'' of
             None \<Rightarrow> Inr []
           | Some dc \<Rightarrow>
               emap (recipe_info False df) (rows_where (diet_mask dc (VStr diet_type)))))"

text \<open>
  \<^verbatim>\<open>Series.str.contains(search_term, case=False, na=False)\<close> leaves
  \<^verbatim>\<open>regex\<close> at its default \<^verbatim>\<open>True\<close>: the term is compiled by
  \<^verbatim>\<open>re.compile(term, re.IGNORECASE)\<close> and a cell matches when
  \<^verbatim>\<open>regex.search(cell)\<close> finds a match. The model interprets the patterns built
  from ordinary characters, \<^verbatim>\<open>.\<close> (any character but a newline) and
  \<^verbatim>\<open>|\<close> (alternation); text is ASCII, so ignoring case folds \<^verbatim>\<open>A-Z\<close>.
  Every other pattern is handed to \<open>re_lib\<close>, a parameter that stands for the rest of
  Python's \<^verbatim>\<open>re\<close>: it answers the compiled matcher or \<^verbatim>\<open>re.error\<close>.
\<close>

type_synonym re_lib = "string \<Rightarrow> error + (string \<Rightarrow> bool)"

definition lower :: "char \<Rightarrow> char" where
  "lower c = (if CHR ''A'' \<le> c \<and> c \<le> CHR ''Z'' then char_of (of_char c + (32::nat)) else c)"

definition meta_chars :: "char list" where
  "meta_chars = [CHR ''.'', CHR ''^'', CHR ''$'', CHR ''*'', CHR ''+'', CHR ''?'',
                 CHR ''{'', CHR ''}'', CHR ''['', CHR '']'', CHR 0x5C, CHR ''|'',
                 CHR ''('', CHR '')'']"

definition simple_pattern :: "string \<Rightarrow> bool" where
  "simple_pattern pat =
     list_all (\<lambda>c. c \<notin> set meta_chars \<or> c = CHR ''.'' \<or> c = CHR ''|'') pat"

datatype atom = AnyChar | Lit char

definition atom_of :: "char \<Rightarrow> atom" where
  "atom_of c = (if c = CHR ''.'' then AnyChar else Lit c)"

text \<open>The alternatives of a pattern: the pieces between the bars.\<close>

fun alternatives :: "string \<Rightarrow> atom list list" where
  "alternatives [] = [[]]"
| "alternatives (c # cs) =
     (case alternatives cs of
        [] \<Rightarrow> []
      | a # as \<Rightarrow> if c = CHR ''|'' then [] # a # as else (atom_of c # a) # as)"

fun atom_ok :: "atom \<Rightarrow> char \<Rightarrow> bool" where
  "atom_ok AnyChar d = (d \<noteq> CHR 0x0A)"
| "atom_ok (Lit c) d = (lower c = lower d)"

fun match_here :: "atom list \<Rightarrow> string \<Rightarrow> bool" where
  "match_here [] s = True"
| "match_here (a # as) [] = False"
| "match_here (a # as) (d # ds) = (atom_ok a d \<and> match_here as ds)"

fun match_anywhere :: "atom list \<Rightarrow> string \<Rightarrow> bool" where
  "match_anywhere as [] = match_here as []"
| "match_anywhere as (d # ds) = (match_here as (d # ds) \<or> match_anywhere as ds)"

definition re_compile :: "re_lib \<Rightarrow> string \<Rightarrow> error + (string \<Rightarrow> bool)" where
  "re_compile L pat =
     (if simple_pattern pat
      then Inr (\<lambda>s. list_ex (\<lambda>alt. match_anywhere alt s) (alternatives pat))
      else L pat)"

text \<open>
  \<^verbatim>\<open>.str\<close> exists on object columns only (AttributeError otherwise); a NaN cell
  answers \<^verbatim>\<open>na=False\<close>.
\<close>

definition str_contains :: "re_lib \<Rightarrow> string \<Rightarrow> column \<Rightarrow> error + bool list" where
  "str_contains L pat c =
     (case c of
        NumCol xs \<Rightarrow> Inl AttributeError
      | ObjCol xs \<Rightarrow>
          (case re_compile L pat of
             Inl e \<Rightarrow> Inl e
           | Inr matches \<Rightarrow>
               Inr (map (\<lambda>x. case x of None \<Rightarrow> False | Some s \<Rightarrow> matches s) xs)))"

definition search_recipes :: "re_lib \<Rightarrow> string \<Rightarrow> string \<Rightarrow> processor \<Rightarrow> error + dict list" where
  "search_recipes L search_term search_field p =
     (case data p of
        None \<Rightarrow> Inr []
      | Some df \<Rightarrow>
          (case map_of df search_field of
             None \<Rightarrow> Inr []
           | Some c \<Rightarrow>
               (case str_contains L search_term c of
                  Inl e \<Rightarrow> Inl e
                | Inr msk \<Rightarrow> emap (recipe_info True df) (rows_where msk))))"

section \<open>Loading\<close>

text \<open>
  \<^verbatim>\<open>pd.read_csv\<close> and the blob service are outside the repository: both are
  parameters, answering a value or the exception they raise.
\<close>

type_synonym csv_reader = "string \<Rightarrow> error + dataframe"

type_synonym blob_service = "string \<Rightarrow> string \<Rightarrow> error + string"

definition load_data_from_content :: "csv_reader \<Rightarrow> string \<Rightarrow> processor \<Rightarrow> bool \<times> processor" where
  "load_data_from_content read_csv content p =
     (case read_csv content of
        Inl e \<Rightarrow> (False, p)
      | Inr df \<Rightarrow>
          (case clean_data (p\<lparr>data := Some df\<rparr>) of
             (Some e, p') \<Rightarrow> (False, p')
           | (None, p') \<Rightarrow> (True, p')))"

definition load_data_from_blob ::
  "blob_service \<Rightarrow> csv_reader \<Rightarrow> string option \<Rightarrow> processor \<Rightarrow> bool \<times> processor" where
  "load_data_from_blob download read_csv blob p =
     (let name = (case blob of None \<Rightarrow> blob_name p
                  | Some b \<Rightarrow> if b = [] then blob_name p else b) in
      case download (container_name p) name of
        Inl e \<Rightarrow> (False, p)
      | Inr blob_data \<Rightarrow> load_data_from_content read_csv blob_data p)"

definition new_processor :: processor where
  "new_processor =
     \<lparr>data = None, container_name = ''diet-data'', blob_name = ''All_Diets.csv''\<rparr>"

section \<open>The query operations as calls on the processor\<close>





section \<open>Predicates and sample data for the properties\<close>

fun has_na :: "column \<Rightarrow> bool" where
  "has_na (NumCol xs) = (None \<in> set xs)"
| "has_na (ObjCol xs) = (None \<in> set xs)"

definition no_missing :: "dataframe \<Rightarrow> bool" where
  "no_missing df = list_all (\<lambda>kc. \<not> has_na (snd kc)) df"

text \<open>A column on which the numeric fill of \<^verbatim>\<open>_clean_data\<close> changes nothing.\<close>

definition num_clean :: "column \<Rightarrow> bool" where
  "num_clean c = (case series_mean c of Inl e \<Rightarrow> False | Inr m \<Rightarrow> fillna_mean m c = c)"

text \<open>The three recipes of the specification's worked example.\<close>

definition example_df :: dataframe where
  "example_df =
    [(''Recipe_name'', ObjCol [Some ''A'', Some ''B'', Some ''C'']),
     (''Diet_type'', ObjCol [Some ''vegan'', Some ''vegan'', Some ''keto'']),
     (''Cuisine_type'', ObjCol [Some ''italian'', Some ''mexican'', Some ''italian'']),
     (''Protein(g)'', NumCol [Some 10, Some 30, Some 5]),
     (''Carbs(g)'', NumCol [Some 20, Some 10, Some 5]),
     (''Fat(g)'', NumCol [Some 5, Some 2, Some 25])]"





definition example_processor :: processor where
  "example_processor = new_processor\<lparr>data := Some example_df\<rparr>"

text \<open>A table whose carbs column holds text, as a CSV with such a cell is read.\<close>

definition text_carbs_df :: dataframe where
  "text_carbs_df =
    [(''Recipe_name'', ObjCol [Some ''A'', Some ''B'']),
     (''Protein(g)'', NumCol [Some 4, None]),
     (''Carbs(g)'', ObjCol [Some ''low'', Some ''12''])]"


text \<open>
  A stand-in for the rest of Python's \<^verbatim>\<open>re\<close> where a concrete one is needed; the
  patterns of the examples lie in the modelled fragment and never reach it.
\<close>

definition no_re_lib :: re_lib where
  "no_re_lib pat = Inl ReError"

text \<open>
  What the specification says of the categorical fill, for comparison with the code: the
  most frequent value, the first one met among equally frequent ones.
\<close>

definition first_most_frequent :: "'a option list \<Rightarrow> 'a option" where
  "first_most_frequent xs =
     (let vs = dropna xs in find (\<lambda>v. count_list vs v = max_count vs) vs)"

text \<open>The most frequent values of a list, and the least of them.\<close>

definition most_frequent :: "'a list \<Rightarrow> 'a set" where
  "most_frequent vs = {v \<in> set vs. \<forall>w \<in> set vs. count_list vs w \<le> count_list vs v}"

definition least_most_frequent :: "('a::linorder) list \<Rightarrow> 'a" where
  "least_most_frequent vs = Min (most_frequent vs)"

text \<open>No declared numeric column of the table holds text.\<close>

definition numeric_cols_numeric :: "dataframe \<Rightarrow> bool" where
  "numeric_cols_numeric df =
     list_all (\<lambda>col. case map_of df col of
                       Some (ObjCol xs) \<Rightarrow> dropna xs = []
                     | _ \<Rightarrow> True) numeric_cols"

text \<open>A table with a tie in the diet types and a protein column with no value at all.\<close>

definition tie_df :: dataframe where
  "tie_df =
    [(''Recipe_name'', ObjCol [Some ''A'', Some ''B'', Some ''C'']),
     (''Diet_type'', ObjCol [Some ''vegan'', Some ''keto'', None]),
     (''Protein(g)'', NumCol [None, None, None]),
     (''Carbs(g)'', NumCol [Some 1, None, Some 2])]"

text \<open>
  What an entry of the diet comparison is expected to hold for the diet type \<open>g\<close>: the
  rounded mean of each macronutrient over the rows of that diet type, 0 for a macronutrient
  whose column is absent, and the number of those rows.
\<close>

fun group_values :: "column \<Rightarrow> column \<Rightarrow> val \<Rightarrow> rat option list" where
  "group_values (NumCol xs) dc g = map fst (filter (\<lambda>xd. val_eq (snd xd) g) (zip xs (col_vals dc)))"
| "group_values (ObjCol xs) dc g = []"

definition macro_average :: "dataframe \<Rightarrow> column \<Rightarrow> val \<Rightarrow> string \<Rightarrow> val" where
  "macro_average df dc g col =
     (case map_of df col of
        None \<Rightarrow> VInt 0
      | Some c \<Rightarrow> (case mean (group_values c dc g) of None \<Rightarrow> VNaN | Some m \<Rightarrow> VNum (round2 m)))"

definition comparison_entry :: "dataframe \<Rightarrow> column \<Rightarrow> val \<Rightarrow> dict" where
  "comparison_entry df dc g =
     [(''diet_type'', g),
      (''protein'', macro_average df dc g ''Protein(g)''),
      (''carbs'', macro_average df dc g ''Carbs(g)''),
      (''fat'', macro_average df dc g ''Fat(g)''),
      (''total_recipes'', VInt (int (count_list (col_vals dc) g)))]"

definition total_recipes_of :: "dict \<Rightarrow> int" where
  "total_recipes_of d = (case map_of d ''total_recipes'' of Some (VInt k) \<Rightarrow> k | _ \<Rightarrow> 0)"

text \<open>A table with diet types and no macronutrient column.\<close>

definition no_macro_df :: dataframe where
  "no_macro_df =
    [(''Recipe_name'', ObjCol [Some ''A'', Some ''B'', Some ''C'']),
     (''Diet_type'', ObjCol [Some ''vegan'', Some ''vegan'', Some ''keto''])]"





text \<open>
  What the top recipes are expected to be: the rows at positions \<open>idxs\<close>, where along
  \<open>idxs\<close> the nutrient value never increases (NaN counting as the lowest) and rows of equal
  value keep their order in the table.
\<close>

definition desc_stable :: "rat option list \<Rightarrow> nat list \<Rightarrow> bool" where
  "desc_stable xs idxs =
     sorted_wrt (\<lambda>i j. desc_ge (xs ! i) (xs ! j) \<and> (xs ! i = xs ! j \<longrightarrow> i < j)) idxs"

definition top_entry :: "dataframe \<Rightarrow> rat option list \<Rightarrow> string \<Rightarrow> nat \<Rightarrow> dict" where
  "top_entry df xs nutrient i =
     [(''recipe_name'', row_get df i ''Recipe_name'' (VStr ''Unknown'')),
      (''diet_type'', row_get df i ''Diet_type'' (VStr ''Unknown'')),
      (''cuisine_type'', row_get df i ''Cuisine_type'' (VStr ''Unknown'')),
      (''nutrient_value'', opt_val (map_option round2 (xs ! i))),
      (''nutrient_type'', VStr nutrient)]"

text \<open>The example table with one more column, named like a nutrient and holding text.\<close>

definition fiber_df :: dataframe where
  "fiber_df = example_df @ [(''Fiber(g)'', ObjCol [Some ''high'', Some ''low'', Some ''3''])]"

text \<open>A table with two recipes of equal protein.\<close>

definition equal_protein_df :: dataframe where
  "equal_protein_df =
    [(''Recipe_name'', ObjCol [Some ''A'', Some ''B'', Some ''C'', Some ''D'']),
     (''Protein(g)'', NumCol [Some 7, Some 30, Some 7, Some 2])]"

text \<open>The order the sort establishes on pairs of a value and a row position.\<close>

definition before :: "rat option \<times> nat \<Rightarrow> rat option \<times> nat \<Rightarrow> bool" where
  "before a b = (desc_ge (fst a) (fst b) \<and> (fst a = fst b \<longrightarrow> snd a < snd b))"




section \<open>Basic facts about the primitives\<close>

lemma fillna_id: "None \<notin> set xs \<Longrightarrow> fillna v xs = xs"
  by (induction xs) (auto simp: fillna_def split: option.splits intro: option.exhaust)

lemma fillna_no_None: "None \<notin> set (fillna v xs)"
  by (auto simp: fillna_def split: option.splits)

lemma length_fillna: "length (fillna v xs) = length xs"
  by (simp add: fillna_def)

lemma dropna_eq_Nil: "dropna xs = [] \<longleftrightarrow> (\<forall>x \<in> set xs. x = None)"
  by (induction xs rule: dropna.induct) auto

lemma set_dropna: "set (dropna xs) = {v. Some v \<in> set xs}"
  by (induction xs rule: dropna.induct) auto

lemma dropna_no_None: "None \<notin> set xs \<Longrightarrow> map Some (dropna xs) = xs"
  by (induction xs rule: dropna.induct) auto

lemma map_of_set_col: "map_of (set_col k v df) k' = (if k' = k then Some v else map_of df k')"
  by (induction k v df rule: set_col.induct) auto

lemma set_col_same: "map_of df k = Some v \<Longrightarrow> set_col k v df = df"
  by (induction k v df rule: set_col.induct) (auto split: if_splits)

lemma set_unique: "set (unique xs) = set xs"
  by (induction xs) auto

lemma distinct_unique: "distinct (unique xs)"
  by (induction xs) (auto simp: set_unique)

lemma max_count_Max: "max_count vs = Max (insert 0 (count_list vs ` set vs))"
proof -
  have "fold max (map (count_list vs) vs) 0 = Max (set (0 # map (count_list vs) vs))"
    by (rule Max.set_eq_fold [symmetric])
  then show ?thesis by (simp add: max_count_def)
qed

lemma max_count_attained:
  assumes "vs \<noteq> []"
  shows "\<exists>v \<in> set vs. count_list vs v = max_count vs"
proof -
  let ?S = "insert 0 (count_list vs ` set vs)"
  have fin: "finite ?S" by simp
  have "Max ?S \<in> ?S" by (rule Max_in) (use fin in auto)
  moreover obtain w where w: "w \<in> set vs" using assms by (cases vs) auto
  then have "count_list vs w > 0" using count_list_0_iff [of vs w] by simp
  then have "Max ?S > 0" using w fin by (subst Max_gr_iff) auto
  ultimately show ?thesis by (auto simp: max_count_Max)
qed

lemma max_count_ge: "v \<in> set vs \<Longrightarrow> count_list vs v \<le> max_count vs"
  by (simp add: max_count_Max)

lemma set_mode:
  "set (mode xs) = {v \<in> set (dropna xs). count_list (dropna xs) v = max_count (dropna xs)}"
  by (auto simp: mode_def Let_def set_unique)

lemma mode_eq_Nil: "mode xs = [] \<longleftrightarrow> dropna xs = []"
proof
  assume "mode xs = []"
  then have "set (mode xs) = {}" by simp
  then show "dropna xs = []"
    using max_count_attained [of "dropna xs"] unfolding set_mode by blast
next
  assume "dropna xs = []"
  then show "mode xs = []" by (simp add: mode_def)
qed

section \<open>Cleaning reaches a fixed point\<close>

lemma fillna_mean_id: "None \<notin> set xs \<Longrightarrow> fillna_mean m (NumCol xs) = NumCol xs"
  by (cases m) (auto simp: fillna_id)

lemma num_clean_fill:
  "series_mean c = Inr m \<Longrightarrow> num_clean (fillna_mean m c)"
  by (cases c; cases m)
     (auto simp: num_clean_def fillna_mean_id fillna_no_None split: if_splits sum.splits)

lemma clean_numeric_keeps:
  "clean_numeric cols df = (r, df') \<Longrightarrow> map_of df k = Some c \<Longrightarrow> num_clean c
     \<Longrightarrow> map_of df' k = Some c"
proof (induction cols arbitrary: df)
  case Nil
  then show ?case by simp
next
  case (Cons col cols)
  show ?case
  proof (cases "map_of df col")
    case None
    with Cons show ?thesis by simp
  next
    case (Some c0)
    show ?thesis
    proof (cases "series_mean c0")
      case (Inl e)
      with Some Cons.prems show ?thesis by simp
    next
      case (Inr m)
      let ?df1 = "set_col col (fillna_mean m c0) df"
      from Some Inr Cons.prems(1) have run: "clean_numeric cols ?df1 = (r, df')" by simp
      have "map_of ?df1 k = Some c"
      proof (cases "k = col")
        case True
        with Some Cons.prems(2) have "c0 = c" by simp
        with Inr Cons.prems(3) have "fillna_mean m c0 = c" by (simp add: num_clean_def)
        with True show ?thesis by (simp add: map_of_set_col)
      next
        case False
        with Cons.prems(2) show ?thesis by (simp add: map_of_set_col)
      qed
      from Cons.IH [OF run this Cons.prems(3)] show ?thesis .
    qed
  qed
qed

lemma clean_numeric_dom:
  "clean_numeric cols df = (r, df') \<Longrightarrow> (map_of df' k = None) = (map_of df k = None)"
proof (induction cols arbitrary: df)
  case Nil
  then show ?case by simp
next
  case (Cons col cols)
  show ?case
  proof (cases "map_of df col")
    case None
    with Cons show ?thesis by simp
  next
    case (Some c0)
    show ?thesis
    proof (cases "series_mean c0")
      case (Inl e)
      with Some Cons.prems show ?thesis by simp
    next
      case (Inr m)
      let ?df1 = "set_col col (fillna_mean m c0) df"
      from Some Inr Cons.prems(1) have run: "clean_numeric cols ?df1 = (r, df')" by simp
      from Cons.IH [OF run] Some show ?thesis by (auto simp: map_of_set_col)
    qed
  qed
qed

lemma clean_numeric_idem:
  "clean_numeric cols df = (r, df') \<Longrightarrow> clean_numeric cols df' = (r, df')"
proof (induction cols arbitrary: df)
  case Nil
  then show ?case by simp
next
  case (Cons col cols)
  show ?case
  proof (cases "map_of df col")
    case None
    with Cons.prems have run: "clean_numeric cols df = (r, df')" by simp
    from clean_numeric_dom [OF run, of col] None have "map_of df' col = None" by simp
    with Cons.IH [OF run] show ?thesis by simp
  next
    case (Some c0)
    show ?thesis
    proof (cases "series_mean c0")
      case (Inl e)
      with Some Cons.prems show ?thesis by auto
    next
      case (Inr m)
      let ?c1 = "fillna_mean m c0"
      let ?df1 = "set_col col ?c1 df"
      from Some Inr Cons.prems(1) have run: "clean_numeric cols ?df1 = (r, df')" by simp
      have c1: "num_clean ?c1" by (rule num_clean_fill [OF Inr])
      have "map_of ?df1 col = Some ?c1" by (simp add: map_of_set_col)
      from clean_numeric_keeps [OF run this c1] have at: "map_of df' col = Some ?c1" .
      from c1 obtain m' where m': "series_mean ?c1 = Inr m'" "fillna_mean m' ?c1 = ?c1"
        by (auto simp: num_clean_def split: sum.splits)
      from at m' have "set_col col (fillna_mean m' ?c1) df' = df'"
        by (simp add: set_col_same)
      with at m' Cons.IH [OF run] show ?thesis by simp
    qed
  qed
qed

lemma clean_numeric_other:
  "clean_numeric cols df = (r, df') \<Longrightarrow> k \<notin> set cols \<Longrightarrow> map_of df' k = map_of df k"
proof (induction cols arbitrary: df)
  case Nil
  then show ?case by simp
next
  case (Cons col cols)
  then show ?case
    by (auto simp: map_of_set_col split: option.splits sum.splits)
qed

lemma fill_categorical_idem: "fill_categorical (fill_categorical c) = fill_categorical c"
proof (cases c)
  case (ObjCol xs)
  then show ?thesis
    by (auto simp: fillna_id fillna_no_None split: list.splits)
next
  case (NumCol xs)
  show ?thesis
  proof (cases "mode xs")
    case Nil
    show ?thesis
    proof (cases "xs = []")
      case True
      with NumCol Nil show ?thesis by simp
    next
      case False
      have "fillna v (map (\<lambda>_. Some ''Unknown'') xs) = map (\<lambda>_. Some ''Unknown'') xs" for v
        by (rule fillna_id) auto
      with NumCol Nil False show ?thesis by (auto split: list.splits)
    qed
  next
    case (Cons m ms)
    then have "dropna xs \<noteq> []" using mode_eq_Nil [of xs] by auto
    then obtain v where "Some v \<in> set xs" using set_dropna [of xs] by (cases "dropna xs") auto
    then have "Some v \<in> set (fillna m xs)" by (force simp: fillna_def)
    then have "dropna (fillna m xs) \<noteq> []" using set_dropna [of "fillna m xs"] by auto
    then have "mode (fillna m xs) \<noteq> []" by (simp add: mode_eq_Nil)
    with NumCol Cons show ?thesis
      by (auto simp: fillna_id fillna_no_None split: list.splits)
  qed
qed

lemma clean_categorical_keeps:
  "map_of df k = Some c \<Longrightarrow> fill_categorical c = c
     \<Longrightarrow> map_of (clean_categorical cols df) k = Some c"
proof (induction cols arbitrary: df)
  case Nil
  then show ?case by simp
next
  case (Cons col cols)
  show ?case
  proof (cases "map_of df col")
    case None
    with Cons show ?thesis by simp
  next
    case (Some c0)
    have "map_of (set_col col (fill_categorical c0) df) k = Some c"
      using Some Cons.prems by (auto simp: map_of_set_col)
    from Cons.IH [OF this Cons.prems(2)] Some show ?thesis by simp
  qed
qed

lemma clean_categorical_dom:
  "(map_of (clean_categorical cols df) k = None) = (map_of df k = None)"
  by (induction cols arbitrary: df) (auto simp: map_of_set_col split: option.splits)

lemma clean_categorical_other:
  "k \<notin> set cols \<Longrightarrow> map_of (clean_categorical cols df) k = map_of df k"
  by (induction cols arbitrary: df) (auto simp: map_of_set_col split: option.splits)

lemma clean_categorical_idem:
  "clean_categorical cols (clean_categorical cols df) = clean_categorical cols df"
proof (induction cols arbitrary: df)
  case Nil
  then show ?case by simp
next
  case (Cons col cols)
  show ?case
  proof (cases "map_of df col")
    case None
    then have "map_of (clean_categorical cols df) col = None"
      by (simp add: clean_categorical_dom)
    with None Cons.IH [of df] show ?thesis by simp
  next
    case (Some c0)
    let ?c1 = "fill_categorical c0"
    let ?df1 = "set_col col ?c1 df"
    let ?df' = "clean_categorical cols ?df1"
    have "map_of ?df1 col = Some ?c1" by (simp add: map_of_set_col)
    then have at: "map_of ?df' col = Some ?c1"
      by (rule clean_categorical_keeps) (rule fill_categorical_idem)
    then have "set_col col (fill_categorical ?c1) ?df' = ?df'"
      by (simp add: set_col_same fill_categorical_idem)
    with at Some Cons.IH [of ?df1] show ?thesis by simp
  qed
qed

lemma clean_numeric_all_clean:
  "(\<And>col c. col \<in> set cols \<Longrightarrow> map_of df col = Some c \<Longrightarrow> num_clean c)
     \<Longrightarrow> clean_numeric cols df = (None, df)"
proof (induction cols)
  case Nil
  then show ?case by simp
next
  case (Cons col cols)
  have rest: "clean_numeric cols df = (None, df)"
    by (rule Cons.IH) (rule Cons.prems, auto)
  show ?case
  proof (cases "map_of df col")
    case None
    with rest show ?thesis by simp
  next
    case (Some c0)
    then have "num_clean c0" using Cons.prems [of col c0] by simp
    then obtain m where "series_mean c0 = Inr m" "fillna_mean m c0 = c0"
      by (auto simp: num_clean_def split: sum.splits)
    with Some rest show ?thesis by (simp add: set_col_same)
  qed
qed

lemma clean_numeric_result_clean:
  "clean_numeric cols df = (None, df1) \<Longrightarrow> col \<in> set cols \<Longrightarrow> map_of df1 col = Some c
     \<Longrightarrow> num_clean c"
proof (induction cols arbitrary: df)
  case Nil
  then show ?case by simp
next
  case (Cons a cols)
  show ?case
  proof (cases "map_of df a")
    case None
    with Cons.prems have run: "clean_numeric cols df = (None, df1)" by simp
    from clean_numeric_dom [OF run, of a] None have "map_of df1 a = None" by simp
    with Cons.prems have "col \<in> set cols" by auto
    from Cons.IH [OF run this Cons.prems(3)] show ?thesis .
  next
    case (Some c0)
    show ?thesis
    proof (cases "series_mean c0")
      case (Inl e)
      with Some Cons.prems show ?thesis by simp
    next
      case (Inr m)
      let ?c1 = "fillna_mean m c0"
      let ?df' = "set_col a ?c1 df"
      from Some Inr Cons.prems(1) have run: "clean_numeric cols ?df' = (None, df1)" by simp
      show ?thesis
      proof (cases "col = a")
        case True
        have c1: "num_clean ?c1" by (rule num_clean_fill [OF Inr])
        have "map_of ?df' a = Some ?c1" by (simp add: map_of_set_col)
        from clean_numeric_keeps [OF run this c1] True Cons.prems(3) c1 show ?thesis by simp
      next
        case False
        with Cons.prems have "col \<in> set cols" by auto
        from Cons.IH [OF run this Cons.prems(3)] show ?thesis .
      qed
    qed
  qed
qed

lemma no_missing_col: "no_missing df \<Longrightarrow> map_of df k = Some c \<Longrightarrow> \<not> has_na c"
  by (force simp: no_missing_def list_all_iff dest: map_of_SomeD)

lemma clean_numeric_no_missing: "no_missing df \<Longrightarrow> snd (clean_numeric cols df) = df"
proof (induction cols)
  case Nil
  then show ?case by simp
next
  case (Cons col cols)
  show ?case
  proof (cases "map_of df col")
    case None
    with Cons show ?thesis by simp
  next
    case (Some c0)
    with Cons.prems have na: "\<not> has_na c0" by (rule no_missing_col)
    show ?thesis
    proof (cases "series_mean c0")
      case (Inl e)
      with Some show ?thesis by simp
    next
      case (Inr m)
      from na have "fillna_mean m c0 = c0"
        by (cases c0; cases m) (auto simp: fillna_id)
      with Some Inr Cons show ?thesis by (simp add: set_col_same)
    qed
  qed
qed

lemma fill_categorical_no_na: "\<not> has_na c \<Longrightarrow> fill_categorical c = c"
proof (cases c)
  case (NumCol xs)
  assume "\<not> has_na c"
  with NumCol have nn: "None \<notin> set xs" by simp
  show ?thesis
  proof (cases "mode xs")
    case Nil
    then have "dropna xs = []" by (simp add: mode_eq_Nil)
    with nn have "xs = []" using dropna_no_None [of xs] by auto
    with NumCol Nil show ?thesis by simp
  next
    case (Cons m ms)
    with NumCol nn show ?thesis by (simp add: fillna_id)
  qed
next
  case (ObjCol xs)
  assume "\<not> has_na c"
  with ObjCol show ?thesis by (auto simp: fillna_id split: list.splits)
qed

lemma clean_categorical_no_missing: "no_missing df \<Longrightarrow> clean_categorical cols df = df"
proof (induction cols)
  case Nil
  then show ?case by simp
next
  case (Cons col cols)
  show ?case
  proof (cases "map_of df col")
    case None
    with Cons show ?thesis by simp
  next
    case (Some c0)
    with Cons.prems have "\<not> has_na c0" by (rule no_missing_col)
    then have "fill_categorical c0 = c0" by (rule fill_categorical_no_na)
    with Some Cons show ?thesis by (simp add: set_col_same)
  qed
qed

lemma clean_data_twice: "clean_data (snd (clean_data p)) = clean_data p"
proof (cases "data p")
  case None
  then show ?thesis by (simp add: clean_data_def)
next
  case (Some df)
  obtain r df1 where run: "clean_numeric numeric_cols df = (r, df1)"
    by (cases "clean_numeric numeric_cols df")
  show ?thesis
  proof (cases r)
    case (Some e)
    from run have "clean_numeric numeric_cols df1 = (r, df1)" by (rule clean_numeric_idem)
    with run Some \<open>data p = Some df\<close> show ?thesis by (simp add: clean_data_def)
  next
    case None
    let ?df2 = "clean_categorical categorical_cols df1"
    have "clean_numeric numeric_cols ?df2 = (None, ?df2)"
    proof (rule clean_numeric_all_clean)
      fix col c
      assume col: "col \<in> set numeric_cols" and c: "map_of ?df2 col = Some c"
      from col have "col \<notin> set categorical_cols"
        by (auto simp: numeric_cols_def categorical_cols_def)
      then have "map_of ?df2 col = map_of df1 col" by (rule clean_categorical_other)
      with c have "map_of df1 col = Some c" by simp
      with run None col show "num_clean c" by (auto intro: clean_numeric_result_clean)
    qed
    with run None \<open>data p = Some df\<close> show ?thesis
      by (simp add: clean_data_def clean_categorical_idem)
  qed
qed

lemma clean_data_no_missing:
  assumes "data p = Some df" and "no_missing df"
  shows "snd (clean_data p) = p"
proof -
  obtain r df1 where run: "clean_numeric numeric_cols df = (r, df1)"
    by (cases "clean_numeric numeric_cols df")
  with clean_numeric_no_missing [OF assms(2), of numeric_cols] have "df1 = df" by simp
  with run assms show ?thesis
    by (cases r) (simp_all add: clean_data_def clean_categorical_no_missing)
qed


section \<open>The matcher and the row selection\<close>






section \<open>What cleaning does to each column\<close>

lemma map_fst_set_col: "map_of df k = Some c \<Longrightarrow> map fst (set_col k v df) = map fst df"
  by (induction k v df rule: set_col.induct) (auto split: if_splits)

lemma clean_numeric_names: "clean_numeric cols df = (r, df') \<Longrightarrow> map fst df' = map fst df"
proof (induction cols arbitrary: df)
  case Nil
  then show ?case by simp
next
  case (Cons a cols)
  then show ?case
    by (auto split: option.splits sum.splits simp: map_fst_set_col)
qed

lemma clean_categorical_names: "map fst (clean_categorical cols df) = map fst df"
  by (induction cols arbitrary: df) (auto split: option.splits simp: map_fst_set_col)

lemma clean_numeric_col:
  "distinct cols \<Longrightarrow> clean_numeric cols df = (None, df1) \<Longrightarrow> col \<in> set cols
     \<Longrightarrow> map_of df col = Some c
     \<Longrightarrow> \<exists>m. series_mean c = Inr m \<and> map_of df1 col = Some (fillna_mean m c)"
proof (induction cols arbitrary: df)
  case Nil
  then show ?case by simp
next
  case (Cons a cols)
  show ?case
  proof (cases "a = col")
    case True
    with Cons.prems obtain m where m: "series_mean c = Inr m"
      by (cases "series_mean c") auto
    let ?df' = "set_col a (fillna_mean m c) df"
    from True m Cons.prems have run: "clean_numeric cols ?df' = (None, df1)" by simp
    from True Cons.prems(1) have "col \<notin> set cols" by simp
    from clean_numeric_other [OF run this] True
    have "map_of df1 col = Some (fillna_mean m c)" by (simp add: map_of_set_col)
    with m show ?thesis by blast
  next
    case False
    with Cons.prems have mem: "col \<in> set cols" and d: "distinct cols" by auto
    show ?thesis
    proof (cases "map_of df a")
      case None
      with Cons.prems have "clean_numeric cols df = (None, df1)" by simp
      from Cons.IH [OF d this mem Cons.prems(4)] show ?thesis .
    next
      case (Some c0)
      with Cons.prems obtain m0 where m0: "series_mean c0 = Inr m0"
        by (cases "series_mean c0") auto
      let ?df' = "set_col a (fillna_mean m0 c0) df"
      from Some m0 Cons.prems have run: "clean_numeric cols ?df' = (None, df1)" by simp
      from False Cons.prems(4) have "map_of ?df' col = Some c" by (simp add: map_of_set_col)
      from Cons.IH [OF d run mem this] show ?thesis .
    qed
  qed
qed

lemma clean_categorical_col:
  "distinct cols \<Longrightarrow> col \<in> set cols \<Longrightarrow> map_of df col = Some c
     \<Longrightarrow> map_of (clean_categorical cols df) col = Some (fill_categorical c)"
proof (induction cols arbitrary: df)
  case Nil
  then show ?case by simp
next
  case (Cons a cols)
  show ?case
  proof (cases "a = col")
    case True
    with Cons.prems have "col \<notin> set cols" by simp
    then have "map_of (clean_categorical cols (set_col a (fill_categorical c) df)) col
               = map_of (set_col a (fill_categorical c) df) col"
      by (rule clean_categorical_other)
    with True Cons.prems show ?thesis by (simp add: map_of_set_col)
  next
    case False
    with Cons.prems have mem: "col \<in> set cols" and d: "distinct cols" by auto
    show ?thesis
    proof (cases "map_of df a")
      case None
      with Cons.IH [OF d mem Cons.prems(3)] show ?thesis by simp
    next
      case (Some c0)
      from False Cons.prems(3)
      have "map_of (set_col a (fill_categorical c0) df) col = Some c"
        by (simp add: map_of_set_col)
      from Cons.IH [OF d mem this] Some show ?thesis by simp
    qed
  qed
qed

lemma clean_numeric_completes:
  "(\<And>col c. col \<in> set cols \<Longrightarrow> map_of df col = Some c \<Longrightarrow> \<exists>m. series_mean c = Inr m)
     \<Longrightarrow> fst (clean_numeric cols df) = None"
proof (induction cols arbitrary: df)
  case Nil
  then show ?case by simp
next
  case (Cons a cols)
  show ?case
  proof (cases "map_of df a")
    case None
    have "fst (clean_numeric cols df) = None"
      by (rule Cons.IH) (rule Cons.prems, auto)
    with None show ?thesis by simp
  next
    case (Some c0)
    then obtain m0 where m0: "series_mean c0 = Inr m0" using Cons.prems [of a c0] by auto
    let ?df' = "set_col a (fillna_mean m0 c0) df"
    have "fst (clean_numeric cols ?df') = None"
    proof (rule Cons.IH)
      fix col c
      assume col: "col \<in> set cols" and c: "map_of ?df' col = Some c"
      show "\<exists>m. series_mean c = Inr m"
      proof (cases "col = a")
        case True
        with c have "c = fillna_mean m0 c0" by (simp add: map_of_set_col)
        with num_clean_fill [OF m0] show ?thesis
          by (auto simp: num_clean_def split: sum.splits)
      next
        case False
        with c have "map_of df col = Some c" by (simp add: map_of_set_col)
        with col Cons.prems [of col c] show ?thesis by auto
      qed
    qed
    with Some m0 show ?thesis by simp
  qed
qed

lemma sorted_hd_Min:
  fixes xs :: "('a::linorder) list"
  shows "sorted xs \<Longrightarrow> xs \<noteq> [] \<Longrightarrow> hd xs = Min (set xs)"
  by (cases xs) (auto intro!: Min_eqI [symmetric])

lemma most_frequent_max_count:
  "most_frequent vs = {v \<in> set vs. count_list vs v = max_count vs}"
proof (cases "vs = []")
  case True
  then show ?thesis by (simp add: most_frequent_def)
next
  case False
  then obtain u where u: "u \<in> set vs" "count_list vs u = max_count vs"
    using max_count_attained by blast
  show ?thesis
  proof (intro equalityI subsetI)
    fix v assume "v \<in> most_frequent vs"
    then have v: "v \<in> set vs" "\<forall>w \<in> set vs. count_list vs w \<le> count_list vs v"
      by (auto simp: most_frequent_def)
    with u have "max_count vs \<le> count_list vs v" by auto
    with max_count_ge [OF v(1)] v(1) show "v \<in> {v \<in> set vs. count_list vs v = max_count vs}"
      by auto
  next
    fix v assume "v \<in> {v \<in> set vs. count_list vs v = max_count vs}"
    then show "v \<in> most_frequent vs"
      by (auto simp: most_frequent_def max_count_ge)
  qed
qed

lemma mode_hd:
  assumes "mode xs = m # ms"
  shows "m = least_most_frequent (dropna xs)"
proof -
  have s: "sorted (mode xs)" by (simp add: mode_def Let_def)
  from assms have ne: "mode xs \<noteq> []" by simp
  from sorted_hd_Min [OF s ne] assms have "m = Min (set (mode xs))" by simp
  then show ?thesis
    by (simp add: set_mode least_most_frequent_def most_frequent_max_count)
qed

lemma fill_categorical_no_missing: "\<not> has_na (fill_categorical c)"
proof (cases c)
  case (NumCol xs)
  then show ?thesis
    by (cases "mode xs") (auto simp: fillna_no_None)
next
  case (ObjCol xs)
  then show ?thesis
    by (cases "mode xs") (auto simp: fillna_no_None)
qed

lemma fill_categorical_ObjCol:
  "fill_categorical (ObjCol xs) =
     ObjCol (fillna (if dropna xs = [] then ''Unknown'' else least_most_frequent (dropna xs)) xs)"
proof (cases "mode xs")
  case Nil
  then have "dropna xs = []" by (simp add: mode_eq_Nil)
  with Nil show ?thesis by simp
next
  case (Cons m ms)
  then have "dropna xs \<noteq> []" using mode_eq_Nil [of xs] by auto
  with Cons mode_hd [OF Cons] show ?thesis by simp
qed

lemma fill_categorical_NumCol:
  "dropna xs \<noteq> [] \<Longrightarrow>
   fill_categorical (NumCol xs) = NumCol (fillna (least_most_frequent (dropna xs)) xs)"
proof (cases "mode xs")
  case Nil
  assume "dropna xs \<noteq> []"
  with Nil show ?thesis by (simp add: mode_eq_Nil)
next
  case (Cons m ms)
  with mode_hd [OF Cons] show ?thesis by simp
qed

lemma fillna_mean_NumCol:
  "fillna_mean (mean xs) (NumCol xs) =
     NumCol (if dropna xs = [] then xs
             else fillna (sum_list (dropna xs) / of_nat (length (dropna xs))) xs)"
  by (simp add: mean_def Let_def)

lemma numeric_cols_numeric_mean:
  assumes "numeric_cols_numeric df" and "col \<in> set numeric_cols" and "map_of df col = Some c"
  shows "\<exists>m. series_mean c = Inr m"
proof (cases c)
  case (NumCol xs)
  then show ?thesis by simp
next
  case (ObjCol xs)
  with assms have "dropna xs = []"
    by (auto simp: numeric_cols_numeric_def list_all_iff)
  with ObjCol show ?thesis by simp
qed

lemma distinct_numeric_cols: "distinct numeric_cols"
  by (simp add: numeric_cols_def)

lemma distinct_categorical_cols: "distinct categorical_cols"
  by (simp add: categorical_cols_def)

lemma numeric_not_categorical: "col \<in> set numeric_cols \<Longrightarrow> col \<notin> set categorical_cols"
  by (auto simp: numeric_cols_def categorical_cols_def)

section \<open>Facts about a cleaned table\<close>

lemma cleaned_table:
  assumes "clean_data p0 = (None, p)" and "data p = Some df"
  obtains df0 df1 where "data p0 = Some df0"
    and "clean_numeric numeric_cols df0 = (None, df1)"
    and "df = clean_categorical categorical_cols df1"
proof (cases "data p0")
  case None
  with assms show ?thesis by (simp add: clean_data_def)
next
  case (Some df0)
  obtain r df1 where run: "clean_numeric numeric_cols df0 = (r, df1)"
    by (cases "clean_numeric numeric_cols df0")
  with Some assms(1) have r: "r = None" by (cases r) (auto simp: clean_data_def)
  with Some assms run have "df = clean_categorical categorical_cols df1"
    by (auto simp: clean_data_def)
  with Some run r that show ?thesis by blast
qed

lemma cleaned_numeric:
  assumes "clean_data p0 = (None, p)" and "data p = Some df"
    and "col \<in> set numeric_cols" and "map_of df col = Some c"
  shows "\<exists>m. series_mean c = Inr m"
proof -
  from assms(1,2) obtain df0 df1 where run: "clean_numeric numeric_cols df0 = (None, df1)"
    and df: "df = clean_categorical categorical_cols df1"
    by (rule cleaned_table)
  from assms(3) have "col \<notin> set categorical_cols" by (rule numeric_not_categorical)
  then have "map_of df col = map_of df1 col" unfolding df by (rule clean_categorical_other)
  with assms(4) have "map_of df1 col = Some c" by simp
  from clean_numeric_result_clean [OF run assms(3) this] show ?thesis
    by (auto simp: num_clean_def split: sum.splits)
qed

lemma cleaned_categorical:
  assumes "clean_data p0 = (None, p)" and "data p = Some df"
    and "col \<in> set categorical_cols" and "map_of df col = Some c"
  shows "\<not> has_na c"
proof -
  from assms(1,2) obtain df0 df1 where run: "clean_numeric numeric_cols df0 = (None, df1)"
    and df: "df = clean_categorical categorical_cols df1"
    by (rule cleaned_table)
  from assms(4) df have "map_of df1 col \<noteq> None"
    using clean_categorical_dom [of categorical_cols df1 col] by auto
  then obtain c1 where c1: "map_of df1 col = Some c1" by auto
  from clean_categorical_col [OF distinct_categorical_cols assms(3) c1] assms(4) df
  show ?thesis by (auto simp: fill_categorical_no_missing)
qed

lemma series_mean_Inr_cases:
  assumes "series_mean c = Inr m"
  obtains xs where "c = NumCol xs" | xs where "c = ObjCol xs" "dropna xs = []"
  using assms by (cases c) (auto split: if_splits)

lemma emap_Inr:
  "(\<And>x. x \<in> set xs \<Longrightarrow> f x = Inr (g x)) \<Longrightarrow> emap f xs = Inr (map g xs)"
  by (induction xs) auto

lemma sum_count_unique: "sum_list (map (count_list vs) (unique vs)) = length vs"
proof -
  have "sum_list (map (count_list vs) (unique vs)) = sum (count_list vs) (set (unique vs))"
    by (rule sum_list_distinct_conv_sum_set) (rule distinct_unique)
  also have "\<dots> = length vs" by (simp add: set_unique sum_count_set)
  finally show ?thesis .
qed

lemma count_diet_mask:
  "g \<noteq> VNaN \<Longrightarrow> length (filter id (diet_mask dc g)) = count_list (col_vals dc) g"
proof -
  assume g: "g \<noteq> VNaN"
  have "length (filter id (map (\<lambda>v. val_eq v g) vs)) = count_list vs g" for vs
    using g by (induction vs) (auto simp: val_eq_def)
  then show ?thesis by (simp add: diet_mask_def)
qed

lemma take_rows_group:
  "series_mean c = Inr m0 \<Longrightarrow>
   series_mean (take_rows (diet_mask dc g) c) = Inr (mean (group_values c dc g))"
proof (erule series_mean_Inr_cases)
  fix xs assume c: "c = NumCol xs"
  have "filter snd (zip xs (map (\<lambda>v. val_eq v g) ds))
        = map (\<lambda>xd. (fst xd, val_eq (snd xd) g)) (filter (\<lambda>xd. val_eq (snd xd) g) (zip xs ds))"
    for ds :: "val list"
    by (induction xs ds rule: list_induct2') auto
  then have "map fst (filter snd (zip xs (map (\<lambda>v. val_eq v g) ds)))
        = map fst (filter (\<lambda>xd. val_eq (snd xd) g) (zip xs ds))" for ds :: "val list"
    by (simp add: o_def)
  with c show ?thesis by (simp add: diet_mask_def)
next
  fix xs assume c: "c = ObjCol xs" and e: "dropna xs = []"
  have "dropna (map fst (filter snd (zip xs msk))) = []" for msk :: "bool list"
    using e by (auto simp: dropna_eq_Nil dest!: set_zip_leftD)
  with c show ?thesis by (simp add: mean_def)
qed

lemma group_average_cleaned:
  assumes "map_of df col = Some c" and "series_mean c = Inr m0"
  shows "group_average df (diet_mask dc g) col = Inr (replace_g col, macro_average df dc g col)"
proof -
  have "py_round (opt_val m) = Inr (case m of None \<Rightarrow> VNaN | Some r \<Rightarrow> VNum (round2 r))" for m
    by (cases m) auto
  with assms take_rows_group [OF assms(2), of dc g] show ?thesis
    by (simp add: group_average_def macro_average_def)
qed

lemma in_columns: "col \<in> set (map fst df) \<longleftrightarrow> map_of df col \<noteq> None"
  by (simp add: map_of_eq_None_iff)

lemma replace_g_macros:
  "replace_g ''Protein(g)'' = ''Protein''" "replace_g ''Carbs(g)'' = ''Carbs''"
  "replace_g ''Fat(g)'' = ''Fat''"
  by simp_all

lemma macro_cols_numeric: "macro_cols = numeric_cols"
  by (simp add: macro_cols_def numeric_cols_def)

lemma dict_get_averages:
  fixes M :: "string \<Rightarrow> val" and P :: "string \<Rightarrow> bool"
  defines "macros \<equiv> map (\<lambda>col. (replace_g col, M col)) (filter P macro_cols)"
  shows "dict_get macros ''Protein'' (VInt 0) = (if P ''Protein(g)'' then M ''Protein(g)'' else VInt 0)"
    and "dict_get macros ''Carbs'' (VInt 0) = (if P ''Carbs(g)'' then M ''Carbs(g)'' else VInt 0)"
    and "dict_get macros ''Fat'' (VInt 0) = (if P ''Fat(g)'' then M ''Fat(g)'' else VInt 0)"
  unfolding macros_def
  by (simp_all add: dict_get_def macro_cols_def)

lemma col_len_vals: "length (col_vals c) = col_len c"
  by (cases c) simp_all

lemma opt_val_NaN: "opt_val x = VNaN \<longleftrightarrow> x = None"
  by (cases x) simp_all

lemma no_na_vals: "\<not> has_na c \<Longrightarrow> VNaN \<notin> set (col_vals c)"
proof (cases c)
  case (NumCol xs)
  assume "\<not> has_na c"
  with NumCol have "None \<notin> set xs" by simp
  then have "VNaN \<notin> set (map opt_val xs)"
  proof (induction xs)
    case Nil
    then show ?case by simp
  next
    case (Cons a xs)
    then obtain r where "a = Some r" by (cases a) auto
    with Cons show ?case by simp
  qed
  with NumCol show ?thesis by simp
next
  case (ObjCol xs)
  assume "\<not> has_na c"
  with ObjCol have "None \<notin> set xs" by simp
  then have "VNaN \<notin> set (map (\<lambda>x. case x of None \<Rightarrow> VNaN | Some s \<Rightarrow> VStr s) xs)"
  proof (induction xs)
    case Nil
    then show ?case by simp
  next
    case (Cons a xs)
    then obtain r where "a = Some r" by (cases a) auto
    with Cons show ?case by simp
  qed
  with ObjCol show ?thesis by simp
qed

lemma wf_df_col: "wf_df df \<Longrightarrow> map_of df col = Some c \<Longrightarrow> col_len c = nrows df"
  by (force simp: wf_df_def list_all_iff dest: map_of_SomeD)

lemma macro_average_absent: "map_of df col = None \<Longrightarrow> macro_average df dc g col = VInt 0"
  by (simp add: macro_average_def)


lemma example_cleaned: "clean_data example_processor = (None, example_processor)"
proof -
  have nm: "no_missing example_df" by (simp add: no_missing_def example_df_def)
  have d: "data example_processor = Some example_df" by (simp add: example_processor_def)
  have n: "numeric_cols_numeric example_df"
    by (simp add: numeric_cols_numeric_def numeric_cols_def example_df_def)
  from clean_data_no_missing [OF d nm] have s: "snd (clean_data example_processor) = example_processor" .
  have "fst (clean_numeric numeric_cols example_df) = None"
    by (rule clean_numeric_completes) (rule numeric_cols_numeric_mean [OF n])
  then have "fst (clean_data example_processor) = None"
    using d by (auto simp: clean_data_def split: prod.splits option.splits)
  with s show ?thesis by (metis prod.collapse)
qed

lemma example_wf: "wf_df example_df"
  by (simp add: wf_df_def nrows_def example_df_def)

section \<open>Rounding, means and ranges\<close>
















lemma round2_hundredths: "\<exists>k::int. round2 x = of_int k / 100"
  by (auto simp: round2_def)


section \<open>The stable descending sort\<close>

lemma desc_ge_refl: "desc_ge a a"
  by (cases a) simp_all

lemma desc_ge_total: "desc_ge a b \<or> desc_ge b a"
  by (cases a; cases b) auto

lemma desc_ge_trans: "desc_ge a b \<Longrightarrow> desc_ge b c \<Longrightarrow> desc_ge a c"
  by (cases a; cases b; cases c) auto

lemma set_insert_desc: "set (insert_desc x ys) = insert x (set ys)"
  by (induction ys) auto

lemma length_insert_desc: "length (insert_desc x ys) = Suc (length ys)"
  by (induction ys) auto

lemma set_sort_desc: "set (sort_desc ps) = set ps"
  by (induction ps) (simp_all add: sort_desc_def set_insert_desc)

lemma length_sort_desc: "length (sort_desc ps) = length ps"
  by (induction ps) (simp_all add: sort_desc_def length_insert_desc)

lemma distinct_insert_desc:
  "distinct (map snd (insert_desc x ys)) \<longleftrightarrow> snd x \<notin> snd ` set ys \<and> distinct (map snd ys)"
  by (induction ys) (auto simp: set_insert_desc)

lemma distinct_sort_desc: "distinct (map snd ps) \<Longrightarrow> distinct (map snd (sort_desc ps))"
proof (induction ps)
  case Nil
  then show ?case by (simp add: sort_desc_def)
next
  case (Cons x ps)
  then have "distinct (map snd (sort_desc ps))" and "snd x \<notin> snd ` set ps" by auto
  then show ?case
    using distinct_insert_desc [of x "sort_desc ps"]
    by (simp add: sort_desc_def set_sort_desc [unfolded sort_desc_def])
qed

lemma sorted_insert_desc:
  "sorted_wrt before ys \<Longrightarrow> (\<And>y. y \<in> set ys \<Longrightarrow> snd x < snd y)
     \<Longrightarrow> sorted_wrt before (insert_desc x ys)"
proof (induction ys)
  case Nil
  then show ?case by simp
next
  case (Cons y ys)
  show ?case
  proof (cases "desc_ge (fst x) (fst y)")
    case True
    have "before x z" if "z \<in> set (y # ys)" for z
    proof -
      have "desc_ge (fst y) (fst z)"
        using that Cons.prems(1) by (auto simp: before_def desc_ge_refl)
      with True have "desc_ge (fst x) (fst z)" by (rule desc_ge_trans)
      with Cons.prems(2) [OF that] show ?thesis by (simp add: before_def)
    qed
    with True Cons.prems(1) show ?thesis by auto
  next
    case False
    with desc_ge_total [of "fst x" "fst y"] have ge: "desc_ge (fst y) (fst x)" by blast
    from False have "fst y \<noteq> fst x" using desc_ge_refl [of "fst x"] by auto
    with ge have yx: "before y x" by (simp add: before_def)
    have "sorted_wrt before (insert_desc x ys)"
      by (rule Cons.IH) (use Cons.prems in auto)
    with False yx Cons.prems(1) show ?thesis by (auto simp: set_insert_desc)
  qed
qed

lemma sorted_sort_desc:
  "sorted_wrt (\<lambda>a b. snd a < snd b) ps \<Longrightarrow> sorted_wrt before (sort_desc ps)"
proof (induction ps)
  case Nil
  then show ?case by (simp add: sort_desc_def)
next
  case (Cons x ps)
  then have s: "sorted_wrt before (sort_desc ps)" by simp
  have "sorted_wrt before (insert_desc x (sort_desc ps))"
    by (rule sorted_insert_desc [OF s]) (use Cons.prems in \<open>auto simp: set_sort_desc\<close>)
  then show ?case by (simp add: sort_desc_def)
qed

lemma zip_upt_sorted: "sorted_wrt (\<lambda>a b. snd a < snd b) (zip xs [0..<length xs])"
proof -
  have "sorted_wrt (<) (map snd (zip xs [0..<length xs]))" by simp
  then show ?thesis by (simp only: sorted_wrt_map)
qed

lemma set_zip_upt: "p \<in> set (zip xs [0..<length xs]) \<longleftrightarrow> snd p < length xs \<and> fst p = xs ! snd p"
  by (cases p) (auto simp: set_zip)

lemma clamp_n_range: "1 \<le> clamp_n n \<and> clamp_n n \<le> 100"
  by (simp add: clamp_n_def)

lemma top_recipe_info_NumCol:
  "i < length xs \<Longrightarrow> top_recipe_info df (NumCol xs) nutrient i = Inr (top_entry df xs nutrient i)"
  by (cases "xs ! i") (simp_all add: top_recipe_info_def top_entry_def cell_def)

lemma nlargest_props:
  fixes xs :: "rat option list" and k :: int
  assumes "0 < k"
  defines "idxs \<equiv> take (nat k) (map snd (sort_desc (zip xs [0..<length xs])))"
  shows "nlargest k (NumCol xs) = Inr idxs"
    and "length idxs = min (nat k) (length xs)"
    and "distinct idxs"
    and "\<forall>i \<in> set idxs. i < length xs"
    and "desc_stable xs idxs"
    and "\<forall>i < length xs. i \<notin> set idxs \<longrightarrow>
           (\<forall>j \<in> set idxs. desc_ge (xs ! j) (xs ! i) \<and> (xs ! j = xs ! i \<longrightarrow> j < i))"
proof -
  let ?ps = "zip xs [0..<length xs]"
  let ?s = "sort_desc ?ps"
  have el: "snd a < length xs \<and> fst a = xs ! snd a" if "a \<in> set ?s" for a
    using that by (simp add: set_sort_desc set_zip_upt)
  have srt: "sorted_wrt before ?s" by (rule sorted_sort_desc) (rule zip_upt_sorted)
  have dst: "distinct (map snd ?s)" by (rule distinct_sort_desc) simp
  have idxs: "idxs = map snd (take (nat k) ?s)" by (simp add: idxs_def take_map)
  show "nlargest k (NumCol xs) = Inr idxs"
    using assms(1) by (simp add: nlargest_def idxs_def)
  show "length idxs = min (nat k) (length xs)"
    by (simp add: idxs_def length_sort_desc min.commute)
  show "distinct idxs" unfolding idxs_def using dst by (rule distinct_take)
  show "\<forall>i \<in> set idxs. i < length xs"
  proof
    fix i assume "i \<in> set idxs"
    then obtain a where "a \<in> set (take (nat k) ?s)" "snd a = i" unfolding idxs by auto
    then have "a \<in> set ?s" "snd a = i" by (auto dest: in_set_takeD)
    with el [of a] show "i < length xs" by simp
  qed
  have "sorted_wrt before (take (nat k) ?s)" using srt by (rule sorted_wrt_take)
  then have "sorted_wrt (\<lambda>a b. desc_ge (xs ! snd a) (xs ! snd b) \<and>
                 (xs ! snd a = xs ! snd b \<longrightarrow> snd a < snd b)) (take (nat k) ?s)"
  proof (rule sorted_wrt_mono_rel [rotated])
    fix a b assume ab: "a \<in> set (take (nat k) ?s)" "b \<in> set (take (nat k) ?s)" "before a b"
    then have "a \<in> set ?s" "b \<in> set ?s" by (auto dest: in_set_takeD)
    then have "fst a = xs ! snd a" "fst b = xs ! snd b" using el by blast+
    with ab(3) show "desc_ge (xs ! snd a) (xs ! snd b) \<and> (xs ! snd a = xs ! snd b \<longrightarrow> snd a < snd b)"
      by (simp add: before_def)
  qed
  then show "desc_stable xs idxs" by (simp add: desc_stable_def idxs sorted_wrt_map)
  show "\<forall>i < length xs. i \<notin> set idxs \<longrightarrow>
           (\<forall>j \<in> set idxs. desc_ge (xs ! j) (xs ! i) \<and> (xs ! j = xs ! i \<longrightarrow> j < i))"
  proof (intro allI impI ballI)
    fix i j assume i: "i < length xs" and ni: "i \<notin> set idxs" and j: "j \<in> set idxs"
    from i have "(xs ! i, i) \<in> set ?s" by (simp add: set_sort_desc set_zip_upt)
    moreover from ni have "(xs ! i, i) \<notin> set (take (nat k) ?s)" unfolding idxs by force
    ultimately have d: "(xs ! i, i) \<in> set (drop (nat k) ?s)"
      using set_append [of "take (nat k) ?s" "drop (nat k) ?s"] by auto
    from j obtain a where a: "a \<in> set (take (nat k) ?s)" "snd a = j" unfolding idxs by auto
    from srt have "sorted_wrt before (take (nat k) ?s @ drop (nat k) ?s)" by simp
    with a(1) d have "before a (xs ! i, i)" unfolding sorted_wrt_append by blast
    moreover from a(1) have "a \<in> set ?s" by (auto dest: in_set_takeD)
    then have "fst a = xs ! snd a" using el by blast
    then have "fst a = xs ! j" using a(2) by simp
    ultimately show "desc_ge (xs ! j) (xs ! i) \<and> (xs ! j = xs ! i \<longrightarrow> j < i)"
      using a(2) by (simp add: before_def)
  qed
qed


section \<open>Plain search terms\<close>












text \<open>
  C5. Cleaning is idempotent: running \<^verbatim>\<open>_clean_data\<close> on the processor it left
  behind raises the same exception or none again and leaves the same processor. In
  particular, on a table with no missing entry cleaning leaves the processor as it was.
\<close>

theorem clean_data_idempotent:
  "clean_data (snd (clean_data p)) = clean_data p \<and>
   (\<forall>df. data p = Some df \<and> no_missing df \<longrightarrow> snd (clean_data p) = p)"
  using clean_data_twice clean_data_no_missing by blast

theorem clean_data_idempotent_witness:
  "data (new_processor\<lparr>data := Some example_df\<rparr>) = Some example_df \<and> no_missing example_df \<and>
   snd (clean_data (new_processor\<lparr>data := Some example_df\<rparr>)) = new_processor\<lparr>data := Some example_df\<rparr> \<and>
   clean_data (snd (clean_data (new_processor\<lparr>data := Some example_df\<rparr>))) =
     clean_data (new_processor\<lparr>data := Some example_df\<rparr>)"
proof -
  have nm: "no_missing example_df" by (simp add: no_missing_def example_df_def)
  with clean_data_idempotent [of "new_processor\<lparr>data := Some example_df\<rparr>"]
  show ?thesis by simp
qed

text \<open>
  C1, as the code has it. \<^verbatim>\<open>_clean_data\<close> (and \<^verbatim>\<open>DietAnalyzer.clean_data\<close>, the same
  steps with progress messages) completes on every table whose declared numeric columns
  hold no text, keeps the column names, and then:
  a declared numeric column has each missing entry replaced by the mean of the values it
  had before filling, so it has no missing entry left, unless it had no value at all, in
  which case it stays as it was, all missing;
  a declared categorical column has each missing entry replaced by the most frequent
  value, the least one in sort order among equally frequent ones, or by \<^verbatim>\<open>Unknown\<close> when
  it had no value, and has no missing entry left;
  a column that is absent stays absent and every other column is untouched.
\<close>

theorem clean_data_fills:
  assumes "data p = Some df" and "numeric_cols_numeric df"
  shows "\<exists>df'. clean_data p = (None, p\<lparr>data := Some df'\<rparr>) \<and> map fst df' = map fst df \<and>
    (\<forall>col \<in> set numeric_cols. \<forall>xs. map_of df col = Some (NumCol xs) \<longrightarrow>
       map_of df' col = Some (NumCol
         (if dropna xs = [] then xs
          else fillna (sum_list (dropna xs) / of_nat (length (dropna xs))) xs))) \<and>
    (\<forall>col \<in> set numeric_cols. \<forall>xs. map_of df col = Some (NumCol xs) \<and> dropna xs \<noteq> [] \<longrightarrow>
       (\<forall>c'. map_of df' col = Some c' \<longrightarrow> \<not> has_na c')) \<and>
    (\<forall>col \<in> set categorical_cols. \<forall>xs. map_of df col = Some (ObjCol xs) \<longrightarrow>
       map_of df' col = Some (ObjCol
         (fillna (if dropna xs = [] then ''Unknown'' else least_most_frequent (dropna xs)) xs))) \<and>
    (\<forall>col \<in> set categorical_cols. \<forall>xs. map_of df col = Some (NumCol xs) \<and> dropna xs \<noteq> [] \<longrightarrow>
       map_of df' col = Some (NumCol (fillna (least_most_frequent (dropna xs)) xs))) \<and>
    (\<forall>col \<in> set categorical_cols. \<forall>c'. map_of df' col = Some c' \<longrightarrow> \<not> has_na c') \<and>
    (\<forall>col. col \<notin> set numeric_cols \<union> set categorical_cols \<longrightarrow> map_of df' col = map_of df col)"
proof -
  obtain r df1 where run: "clean_numeric numeric_cols df = (r, df1)"
    by (cases "clean_numeric numeric_cols df")
  have "fst (clean_numeric numeric_cols df) = None"
    by (rule clean_numeric_completes) (rule numeric_cols_numeric_mean [OF assms(2)])
  with run have r: "r = None" by simp
  let ?df' = "clean_categorical categorical_cols df1"
  have res: "clean_data p = (None, p\<lparr>data := Some ?df'\<rparr>)"
    using assms(1) run r by (simp add: clean_data_def)
  have names: "map fst ?df' = map fst df"
    using clean_numeric_names [OF run] by (simp add: clean_categorical_names)
  have num: "map_of ?df' col = Some (NumCol
         (if dropna xs = [] then xs
          else fillna (sum_list (dropna xs) / of_nat (length (dropna xs))) xs))"
    if "col \<in> set numeric_cols" "map_of df col = Some (NumCol xs)" for col xs
  proof -
    from clean_numeric_col [OF distinct_numeric_cols run [unfolded r] that]
    have "map_of df1 col = Some (fillna_mean (mean xs) (NumCol xs))" by auto
    moreover have "map_of ?df' col = map_of df1 col"
      by (rule clean_categorical_other) (rule numeric_not_categorical [OF that(1)])
    ultimately show ?thesis by (simp only: fillna_mean_NumCol)
  qed
  have num_na: "\<not> has_na c'"
    if "col \<in> set numeric_cols" "map_of df col = Some (NumCol xs)" "dropna xs \<noteq> []"
       "map_of ?df' col = Some c'" for col xs c'
    using num [OF that(1,2)] that(3,4) by (auto simp: fillna_no_None)
  have cat_at: "map_of ?df' col = Some (fill_categorical c)"
    if "col \<in> set categorical_cols" "map_of df col = Some c" for col c
  proof -
    from that(1) have "col \<notin> set numeric_cols" using numeric_not_categorical by blast
    from clean_numeric_other [OF run this] that(2) have "map_of df1 col = Some c" by simp
    from clean_categorical_col [OF distinct_categorical_cols that(1) this] show ?thesis .
  qed
  have cat_na: "\<not> has_na c'"
    if "col \<in> set categorical_cols" "map_of ?df' col = Some c'" for col c'
  proof -
    from that(2) have "map_of df1 col \<noteq> None"
      using clean_categorical_dom [of categorical_cols df1 col] by auto
    with clean_numeric_dom [OF run, of col] obtain c where "map_of df col = Some c" by auto
    from cat_at [OF that(1) this] that(2) show ?thesis
      by (auto simp: fill_categorical_no_missing)
  qed
  have other: "map_of ?df' col = map_of df col"
    if "col \<notin> set numeric_cols \<union> set categorical_cols" for col
    using that clean_numeric_other [OF run, of col] clean_categorical_other [of col categorical_cols df1]
    by simp
  have cat_obj: "map_of ?df' col = Some (ObjCol
         (fillna (if dropna xs = [] then ''Unknown'' else least_most_frequent (dropna xs)) xs))"
    if "col \<in> set categorical_cols" "map_of df col = Some (ObjCol xs)" for col xs
    using cat_at [OF that] by (simp only: fill_categorical_ObjCol)
  have cat_num: "map_of ?df' col = Some (NumCol (fillna (least_most_frequent (dropna xs)) xs))"
    if "col \<in> set categorical_cols" "map_of df col = Some (NumCol xs)" "dropna xs \<noteq> []"
    for col xs
    using cat_at [OF that(1,2)] fill_categorical_NumCol [OF that(3)] by simp
  from res names num num_na cat_obj cat_num cat_na other show ?thesis
    by (intro exI [of _ ?df']) blast
qed

theorem clean_data_fills_witness:
  "data (new_processor\<lparr>data := Some tie_df\<rparr>) = Some tie_df \<and> numeric_cols_numeric tie_df \<and>
   (\<exists>df'. clean_data (new_processor\<lparr>data := Some tie_df\<rparr>)
            = (None, new_processor\<lparr>data := Some df'\<rparr>) \<and>
      map_of df' ''Carbs(g)'' = Some (NumCol [Some 1, Some (3 / 2), Some 2]) \<and>
      map_of df' ''Protein(g)'' = Some (NumCol [None, None, None]) \<and>
      map_of df' ''Diet_type'' = Some (ObjCol [Some ''vegan'', Some ''keto'', Some ''keto'']))"
proof -
  let ?p = "new_processor\<lparr>data := Some tie_df\<rparr>"
  have h1: "data ?p = Some tie_df" by simp
  have h2: "numeric_cols_numeric tie_df"
    by (simp add: numeric_cols_numeric_def numeric_cols_def tie_df_def)
  have m: "mode [Some ''vegan'', Some ''keto'', None] = [''keto'', ''vegan'']" by code_simp
  have l: "least_most_frequent [''vegan'', ''keto''] = ''keto''"
    using mode_hd [OF m] by simp
  have c: "map_of tie_df ''Carbs(g)'' = Some (NumCol [Some 1, None, Some 2])"
          "map_of tie_df ''Protein(g)'' = Some (NumCol [None, None, None])"
          "map_of tie_df ''Diet_type'' = Some (ObjCol [Some ''vegan'', Some ''keto'', None])"
    by (simp_all add: tie_df_def)
  from clean_data_fills [OF h1 h2] obtain df' where
    r: "clean_data ?p = (None, ?p\<lparr>data := Some df'\<rparr>)"
    and n: "\<forall>col \<in> set numeric_cols. \<forall>xs. map_of tie_df col = Some (NumCol xs) \<longrightarrow>
       map_of df' col = Some (NumCol
         (if dropna xs = [] then xs
          else fillna (sum_list (dropna xs) / of_nat (length (dropna xs))) xs))"
    and k: "\<forall>col \<in> set categorical_cols. \<forall>xs. map_of tie_df col = Some (ObjCol xs) \<longrightarrow>
       map_of df' col = Some (ObjCol
         (fillna (if dropna xs = [] then ''Unknown'' else least_most_frequent (dropna xs)) xs))"
    by blast
  from n c(1) have 1: "map_of df' ''Carbs(g)'' = Some (NumCol [Some 1, Some (3 / 2), Some 2])"
    by (simp add: numeric_cols_def fillna_def)
  from n c(2) have 2: "map_of df' ''Protein(g)'' = Some (NumCol [None, None, None])"
    by (simp add: numeric_cols_def)
  from k c(3) l have 3: "map_of df' ''Diet_type'' = Some (ObjCol [Some ''vegan'', Some ''keto'', Some ''keto''])"
    by (simp add: categorical_cols_def fillna_def)
  from r have r': "clean_data ?p = (None, new_processor\<lparr>data := Some df'\<rparr>)" by simp
  from h1 h2 r' 1 2 3 show ?thesis by blast
qed

text \<open>
  C1 as stated fails on two counts: with \<^verbatim>\<open>vegan\<close> and \<^verbatim>\<open>keto\<close> equally frequent
  the missing diet type becomes \<^verbatim>\<open>keto\<close>, not the first value met, and a protein column
  with no value keeps its missing entries.
\<close>

theorem clean_data_tie_counterexample:
  "clean_data (new_processor\<lparr>data := Some tie_df\<rparr>) =
     (None, new_processor\<lparr>data := Some
        [(''Recipe_name'', ObjCol [Some ''A'', Some ''B'', Some ''C'']),
         (''Diet_type'', ObjCol [Some ''vegan'', Some ''keto'', Some ''keto'']),
         (''Protein(g)'', NumCol [None, None, None]),
         (''Carbs(g)'', NumCol [Some 1, Some (3 / 2), Some 2])]\<rparr>) \<and>
   first_most_frequent [Some ''vegan'', Some ''keto'', None] = Some ''vegan'' \<and>
   has_na (NumCol [None, None, None])"
proof -
  have m: "mode [Some ''vegan'', Some ''keto'', None] = [''keto'', ''vegan'']" by code_simp
  have f: "first_most_frequent [Some ''vegan'', Some ''keto'', None] = Some ''vegan''"
    by code_simp
  have "clean_data (new_processor\<lparr>data := Some tie_df\<rparr>) =
     (None, new_processor\<lparr>data := Some
        [(''Recipe_name'', ObjCol [Some ''A'', Some ''B'', Some ''C'']),
         (''Diet_type'', ObjCol [Some ''vegan'', Some ''keto'', Some ''keto'']),
         (''Protein(g)'', NumCol [None, None, None]),
         (''Carbs(g)'', NumCol [Some 1, Some (3 / 2), Some 2])]\<rparr>)"
    by (simp add: clean_data_def numeric_cols_def categorical_cols_def tie_df_def mean_def
        fillna_def m)
  with f show ?thesis by simp
qed

section \<open>Queries without a dataset\<close>

text \<open>
  C7. With no dataset loaded (\<^verbatim>\<open>self.data is None\<close>) each of the eight query operations
  returns its empty result, the empty dict or the empty list, and raises nothing.
\<close>

theorem no_dataset_defaults:
  assumes "data p = None"
  shows "get_diet_summary p = Inr [] \<and>
         get_macronutrient_averages p = Inr [] \<and>
         get_diet_comparison_data p = Inr [] \<and>
         get_top_recipes_by_nutrient nutrient n p = Inr [] \<and>
         get_cuisine_distribution p = Inr [] \<and>
         get_nutrient_ranges p = Inr [] \<and>
         get_recipes_by_diet_type diet_type p = Inr [] \<and>
         search_recipes L search_term search_field p = Inr []"
  using assms
  by (simp add: get_diet_summary_def get_macronutrient_averages_def
      get_diet_comparison_data_def get_top_recipes_by_nutrient_def
      get_cuisine_distribution_def get_nutrient_ranges_def get_recipes_by_diet_type_def
      search_recipes_def)

theorem no_dataset_defaults_witness:
  "data new_processor = None \<and>
   get_diet_summary new_processor = Inr [] \<and>
   get_diet_comparison_data new_processor = Inr [] \<and>
   get_top_recipes_by_nutrient ''Protein'' 10 new_processor = Inr [] \<and>
   search_recipes no_re_lib ''soup'' ''Recipe_name'' new_processor = Inr []"
proof -
  have h: "data new_processor = None" by (simp add: new_processor_def)
  from no_dataset_defaults [OF h, of "''Protein''" 10 "[]" no_re_lib "''soup''" "''Recipe_name''"] h
  show ?thesis by simp
qed

section \<open>Queries leave the dataset alone\<close>



section \<open>A load that fails\<close>

lemma load_read_failure:
  "read_csv content = Inl e \<Longrightarrow> load_data_from_content read_csv content p = (False, p)"
  by (simp add: load_data_from_content_def)

text \<open>
  C4. The claim asks that a load that fails installs no dataset. At a CSV that parses but
  holds text in the carbs column the code does otherwise: \<^verbatim>\<open>self.data\<close> is assigned
  before cleaning, cleaning raises TypeError at the carbs column after it has filled the
  protein column, the load answers \<^verbatim>\<open>False\<close>, and the half-cleaned table stays
  installed, so the summary afterwards is not the one of a processor without a dataset.
\<close>

theorem failed_load_installs_table:
  "load_data_from_content (\<lambda>content. Inr text_carbs_df) content new_processor
     = (False, new_processor\<lparr>data := Some
          [(''Recipe_name'', ObjCol [Some ''A'', Some ''B'']),
           (''Protein(g)'', NumCol [Some 4, Some 4]),
           (''Carbs(g)'', ObjCol [Some ''low'', Some ''12''])]\<rparr>) \<and>
   get_diet_summary (snd (load_data_from_content (\<lambda>content. Inr text_carbs_df) content new_processor))
     \<noteq> get_diet_summary new_processor"
  by (simp add: load_data_from_content_def clean_data_def numeric_cols_def text_carbs_df_def
      new_processor_def mean_def fillna_def get_diet_summary_def)




section \<open>Search reads its term as a regular expression\<close>



section \<open>The diet comparison accounts for every row\<close>

text \<open>
  C6, as the code has it. On a cleaned table that has the diet type column and at least one
  macronutrient column, \<^verbatim>\<open>get_diet_comparison_data\<close> returns one entry for each distinct
  diet type, in order of first appearance: the rounded averages of the macronutrients over
  the rows of that diet type, 0 for a macronutrient whose column is absent, and the number of
  those rows; the \<^verbatim>\<open>total_recipes\<close> fields add up to the number of rows of the table.
  Without the diet type column or without any macronutrient column the result is empty.
\<close>

theorem diet_comparison_entries:
  assumes "clean_data p0 = (None, p)" and "data p = Some df" and "wf_df df"
  shows "(\<forall>dc. map_of df ''Diet_type'' = Some dc \<and> list_ex (\<lambda>col. map_of df col \<noteq> None) macro_cols \<longrightarrow>
            get_diet_comparison_data p = Inr (map (comparison_entry df dc) (unique (col_vals dc))) \<and>
            distinct (unique (col_vals dc)) \<and> set (unique (col_vals dc)) = set (col_vals dc) \<and>
            sum_list (map total_recipes_of (map (comparison_entry df dc) (unique (col_vals dc))))
              = int (nrows df)) \<and>
         (map_of df ''Diet_type'' = None \<or> \<not> list_ex (\<lambda>col. map_of df col \<noteq> None) macro_cols \<longrightarrow>
            get_diet_comparison_data p = Inr [])"
proof (intro conjI allI impI)
  fix dc
  assume A: "map_of df ''Diet_type'' = Some dc \<and> list_ex (\<lambda>col. map_of df col \<noteq> None) macro_cols"
  then have dc: "map_of df ''Diet_type'' = Some dc" by simp
  define av where "av = filter (\<lambda>col. col \<in> set (map fst df)) macro_cols"
  define gs where "gs = unique (col_vals dc)"
  define M where "M = (\<lambda>g col. macro_average df dc g col)"
  define macros where "macros = (\<lambda>g. map (\<lambda>col. (replace_g col, M g col)) av)"
  from A obtain col0 where "col0 \<in> set macro_cols" "map_of df col0 \<noteq> None"
    by (auto simp: list_ex_iff)
  then have "col0 \<in> set av" unfolding av_def by (simp only: set_filter in_columns) simp
  then have av: "av \<noteq> []" by auto
  have inner: "emap (group_average df (diet_mask dc g)) av = Inr (macros g)" for g
    unfolding macros_def
  proof (rule emap_Inr)
    fix col assume "col \<in> set av"
    then have "col \<in> set macro_cols" and "map_of df col \<noteq> None"
      unfolding av_def by (simp_all only: set_filter in_columns) simp_all
    then have mem: "col \<in> set numeric_cols" and "\<exists>c. map_of df col = Some c"
      by (simp_all add: macro_cols_numeric)
    then obtain c where c: "map_of df col = Some c" by blast
    from cleaned_numeric [OF assms(1,2) mem c] obtain m0 where "series_mean c = Inr m0" ..
    with c show "group_average df (diet_mask dc g) col = Inr (replace_g col, M g col)"
      unfolding M_def by (rule group_average_cleaned)
  qed
  have outer: "emap (\<lambda>diet_type.
            case emap (group_average df (diet_mask dc diet_type)) av of
              Inl e \<Rightarrow> Inl e
            | Inr averages \<Rightarrow> Inr (diet_type, averages)) gs
      = Inr (map (\<lambda>g. (g, macros g)) gs)"
    by (rule emap_Inr) (simp add: inner)
  have "get_macronutrient_averages p =
      (if av = [] then Inr []
       else emap (\<lambda>diet_type.
              case emap (group_average df (diet_mask dc diet_type)) av of
                Inl e \<Rightarrow> Inl e
              | Inr averages \<Rightarrow> Inr (diet_type, averages)) gs)"
    using assms(2) dc by (simp add: get_macronutrient_averages_def Let_def av_def gs_def)
  with av outer have avg: "get_macronutrient_averages p = Inr (map (\<lambda>g. (g, macros g)) gs)"
    by simp
  have "VNaN \<notin> set (col_vals dc)"
    by (rule no_na_vals, rule cleaned_categorical [OF assms(1,2) _ dc])
       (simp add: categorical_cols_def)
  then have nn: "g \<noteq> VNaN" if "g \<in> set gs" for g
    using that unfolding gs_def by (auto simp: set_unique)
  have present: "(col \<in> set (map fst df)) = (map_of df col \<noteq> None)" for col
    by (rule in_columns)
  have get: "dict_get (macros g) ''Protein'' (VInt 0) = macro_average df dc g ''Protein(g)''"
            "dict_get (macros g) ''Carbs'' (VInt 0) = macro_average df dc g ''Carbs(g)''"
            "dict_get (macros g) ''Fat'' (VInt 0) = macro_average df dc g ''Fat(g)''" for g
    unfolding macros_def av_def dict_get_averages present M_def
    by (simp_all add: macro_average_def)
  have entry: "diet_info p (g, macros g) = Inr (comparison_entry df dc g)" if "g \<in> set gs" for g
    using assms(2) dc count_diet_mask [OF nn [OF that], of dc]
    by (simp add: diet_info_def comparison_entry_def get)
  have "emap (diet_info p) (map (\<lambda>g. (g, macros g)) gs)
      = Inr (map (\<lambda>x. comparison_entry df dc (fst x)) (map (\<lambda>g. (g, macros g)) gs))"
    by (rule emap_Inr) (auto simp: entry)
  with avg have "get_diet_comparison_data p = Inr (map (comparison_entry df dc) gs)"
    by (simp add: get_diet_comparison_data_def o_def)
  then show "get_diet_comparison_data p = Inr (map (comparison_entry df dc) (unique (col_vals dc)))"
    by (simp only: gs_def)
  show "distinct (unique (col_vals dc))" by (rule distinct_unique)
  show "set (unique (col_vals dc)) = set (col_vals dc)" by (rule set_unique)
  have "total_recipes_of (comparison_entry df dc g) = int (count_list (col_vals dc) g)" for g
    by (simp add: total_recipes_of_def comparison_entry_def)
  then have "sum_list (map total_recipes_of (map (comparison_entry df dc) gs))
      = sum_list (map (\<lambda>g. int (count_list (col_vals dc) g)) gs)"
    by (simp add: o_def)
  also have "\<dots> = int (sum_list (map (count_list (col_vals dc)) gs))"
    by (induction gs) simp_all
  also have "\<dots> = int (nrows df)"
    using wf_df_col [OF assms(3) dc] unfolding gs_def
    by (simp add: sum_count_unique col_len_vals)
  finally show "sum_list (map total_recipes_of (map (comparison_entry df dc) (unique (col_vals dc))))
      = int (nrows df)"
    by (simp only: gs_def)
next
  assume B: "map_of df ''Diet_type'' = None \<or> \<not> list_ex (\<lambda>col. map_of df col \<noteq> None) macro_cols"
  have "filter (\<lambda>col. col \<in> set (map fst df)) macro_cols = []"
    if "\<not> list_ex (\<lambda>col. map_of df col \<noteq> None) macro_cols"
    using that by (simp only: in_columns filter_empty_conv list_ex_iff) blast
  with B have "get_macronutrient_averages p = Inr []"
    using assms(2) unfolding get_macronutrient_averages_def Let_def
    by (cases "map_of df ''Diet_type''") auto
  then show "get_diet_comparison_data p = Inr []" by (simp add: get_diet_comparison_data_def)
qed

theorem diet_comparison_entries_witness:
  "clean_data example_processor = (None, example_processor) \<and>
   data example_processor = Some example_df \<and> wf_df example_df \<and>
   map_of example_df ''Diet_type'' = Some (ObjCol [Some ''vegan'', Some ''vegan'', Some ''keto'']) \<and>
   list_ex (\<lambda>col. map_of example_df col \<noteq> None) macro_cols \<and>
   get_diet_comparison_data example_processor =
     Inr [[(''diet_type'', VStr ''vegan''), (''protein'', VNum 20), (''carbs'', VNum 15),
           (''fat'', VNum (7 / 2)), (''total_recipes'', VInt 2)],
          [(''diet_type'', VStr ''keto''), (''protein'', VNum 5), (''carbs'', VNum 5),
           (''fat'', VNum 25), (''total_recipes'', VInt 1)]] \<and>
   sum_list (map total_recipes_of
     [[(''diet_type'', VStr ''vegan''), (''protein'', VNum 20), (''carbs'', VNum 15),
       (''fat'', VNum (7 / 2)), (''total_recipes'', VInt 2)],
      [(''diet_type'', VStr ''keto''), (''protein'', VNum 5), (''carbs'', VNum 5),
       (''fat'', VNum 25), (''total_recipes'', VInt 1)]]) = int (nrows example_df)"
proof -
  let ?dc = "ObjCol [Some ''vegan'', Some ''vegan'', Some ''keto'']"
  have h1: "clean_data example_processor = (None, example_processor)" by (rule example_cleaned)
  have h2: "data example_processor = Some example_df" by (simp add: example_processor_def)
  have h3: "wf_df example_df" by (rule example_wf)
  have h4: "map_of example_df ''Diet_type'' = Some ?dc" by (simp add: example_df_def)
  have h5: "list_ex (\<lambda>col. map_of example_df col \<noteq> None) macro_cols"
    by (simp add: macro_cols_def example_df_def)
  have ev: "map (comparison_entry example_df ?dc) (unique (col_vals ?dc)) =
     [[(''diet_type'', VStr ''vegan''), (''protein'', VNum 20), (''carbs'', VNum 15),
       (''fat'', VNum (7 / 2)), (''total_recipes'', VInt 2)],
      [(''diet_type'', VStr ''keto''), (''protein'', VNum 5), (''carbs'', VNum 5),
       (''fat'', VNum 25), (''total_recipes'', VInt 1)]]"
    by code_simp
  from diet_comparison_entries [OF h1 h2 h3] h4 h5
  have "get_diet_comparison_data example_processor
          = Inr (map (comparison_entry example_df ?dc) (unique (col_vals ?dc))) \<and>
        sum_list (map total_recipes_of (map (comparison_entry example_df ?dc) (unique (col_vals ?dc))))
          = int (nrows example_df)"
    by blast
  with h1 h2 h3 h4 h5 show ?thesis unfolding ev by blast
qed

text \<open>
  C6 as stated fails on a cleaned table with diet types and no macronutrient column: the
  comparison is empty, so it has no entry for the two diet types and its
  \<^verbatim>\<open>total_recipes\<close> fields add up to 0, not to the 3 rows.
\<close>

theorem diet_comparison_counterexample:
  "clean_data (new_processor\<lparr>data := Some no_macro_df\<rparr>)
     = (None, new_processor\<lparr>data := Some no_macro_df\<rparr>) \<and>
   get_diet_comparison_data (new_processor\<lparr>data := Some no_macro_df\<rparr>) = Inr [] \<and>
   sum_list (map total_recipes_of []) \<noteq> int (nrows no_macro_df) \<and>
   unique (col_vals (ObjCol [Some ''vegan'', Some ''vegan'', Some ''keto''])) = [VStr ''vegan'', VStr ''keto'']"
proof -
  have m: "mode [Some ''vegan'', Some ''vegan'', Some ''keto''] = [''vegan'']" by code_simp
  have 1: "clean_data (new_processor\<lparr>data := Some no_macro_df\<rparr>)
     = (None, new_processor\<lparr>data := Some no_macro_df\<rparr>)"
    by (simp add: clean_data_def numeric_cols_def categorical_cols_def no_macro_df_def m fillna_def)
  have 2: "get_diet_comparison_data (new_processor\<lparr>data := Some no_macro_df\<rparr>) = Inr []"
    by (simp add: get_diet_comparison_data_def get_macronutrient_averages_def macro_cols_def
        no_macro_df_def)
  have 3: "sum_list (map total_recipes_of []) \<noteq> int (nrows no_macro_df)"
    by (simp add: nrows_def no_macro_df_def)
  have 4: "unique (col_vals (ObjCol [Some ''vegan'', Some ''vegan'', Some ''keto''])) = [VStr ''vegan'', VStr ''keto'']"
    by simp
  from 1 2 3 4 show ?thesis by blast
qed




section \<open>The top recipes are the largest, in stable order\<close>

text \<open>
  C2, as the code has it. With the count clamped by the caller to the range from 1 to 100,
  and the nutrient column a numeric one, \<^verbatim>\<open>get_top_recipes_by_nutrient\<close> returns the
  rows at positions \<open>idxs\<close>: as many as the smaller of the count and the number of rows,
  all different, in descending order of the nutrient value with rows of equal value in
  table order, and every row left out ranks after every row returned. Each row carries the
  value rounded to two decimals. When the table has no such column the result is empty.
\<close>

theorem top_recipes_sorted:
  assumes "data p = Some df" and "wf_df df"
  shows "(map_of df (nutrient @ ''(g)'') = None \<longrightarrow>
            get_top_recipes_by_nutrient nutrient (clamp_n n) p = Inr []) \<and>
         (\<forall>xs. map_of df (nutrient @ ''(g)'') = Some (NumCol xs) \<longrightarrow>
            (\<exists>idxs. get_top_recipes_by_nutrient nutrient (clamp_n n) p
                       = Inr (map (top_entry df xs nutrient) idxs) \<and>
                    length idxs = min (nat (clamp_n n)) (nrows df) \<and>
                    distinct idxs \<and> (\<forall>i \<in> set idxs. i < nrows df) \<and>
                    desc_stable xs idxs \<and>
                    (\<forall>i < nrows df. i \<notin> set idxs \<longrightarrow>
                       (\<forall>j \<in> set idxs. desc_ge (xs ! j) (xs ! i) \<and>
                                        (xs ! j = xs ! i \<longrightarrow> j < i)))))"
proof (intro conjI allI impI)
  assume "map_of df (nutrient @ ''(g)'') = None"
  with assms(1) show "get_top_recipes_by_nutrient nutrient (clamp_n n) p = Inr []"
    by (simp add: get_top_recipes_by_nutrient_def)
next
  fix xs assume c: "map_of df (nutrient @ ''(g)'') = Some (NumCol xs)"
  from wf_df_col [OF assms(2) c] have len: "length xs = nrows df" by simp
  have k: "0 < clamp_n n" using clamp_n_range [of n] by linarith
  define idxs where "idxs = take (nat (clamp_n n)) (map snd (sort_desc (zip xs [0..<length xs])))"
  note P = nlargest_props [OF k, of xs, folded idxs_def]
  have "emap (top_recipe_info df (NumCol xs) nutrient) idxs = Inr (map (top_entry df xs nutrient) idxs)"
    by (rule emap_Inr) (use P(4) in \<open>simp add: top_recipe_info_NumCol\<close>)
  with assms(1) c P(1)
  have "get_top_recipes_by_nutrient nutrient (clamp_n n) p = Inr (map (top_entry df xs nutrient) idxs)"
    by (simp add: get_top_recipes_by_nutrient_def)
  with P(2-6) show "\<exists>idxs. get_top_recipes_by_nutrient nutrient (clamp_n n) p
                       = Inr (map (top_entry df xs nutrient) idxs) \<and>
                    length idxs = min (nat (clamp_n n)) (nrows df) \<and>
                    distinct idxs \<and> (\<forall>i \<in> set idxs. i < nrows df) \<and>
                    desc_stable xs idxs \<and>
                    (\<forall>i < nrows df. i \<notin> set idxs \<longrightarrow>
                       (\<forall>j \<in> set idxs. desc_ge (xs ! j) (xs ! i) \<and>
                                        (xs ! j = xs ! i \<longrightarrow> j < i)))"
    unfolding len by blast
qed

theorem top_recipes_sorted_witness:
  "data (new_processor\<lparr>data := Some equal_protein_df\<rparr>) = Some equal_protein_df \<and>
   wf_df equal_protein_df \<and>
   map_of equal_protein_df (''Protein'' @ ''(g)'') = Some (NumCol [Some 7, Some 30, Some 7, Some 2]) \<and>
   get_top_recipes_by_nutrient ''Protein'' (clamp_n 3) (new_processor\<lparr>data := Some equal_protein_df\<rparr>) =
     Inr [[(''recipe_name'', VStr ''B''), (''diet_type'', VStr ''Unknown''),
           (''cuisine_type'', VStr ''Unknown''), (''nutrient_value'', VNum 30),
           (''nutrient_type'', VStr ''Protein'')],
          [(''recipe_name'', VStr ''A''), (''diet_type'', VStr ''Unknown''),
           (''cuisine_type'', VStr ''Unknown''), (''nutrient_value'', VNum 7),
           (''nutrient_type'', VStr ''Protein'')],
          [(''recipe_name'', VStr ''C''), (''diet_type'', VStr ''Unknown''),
           (''cuisine_type'', VStr ''Unknown''), (''nutrient_value'', VNum 7),
           (''nutrient_type'', VStr ''Protein'')]] \<and>
   (\<exists>idxs. get_top_recipes_by_nutrient ''Protein'' (clamp_n 3)
              (new_processor\<lparr>data := Some equal_protein_df\<rparr>)
            = Inr (map (top_entry equal_protein_df [Some 7, Some 30, Some 7, Some 2] ''Protein'') idxs) \<and>
          length idxs = min (nat (clamp_n 3)) (nrows equal_protein_df) \<and>
          desc_stable [Some 7, Some 30, Some 7, Some 2] idxs)"
proof -
  let ?p = "new_processor\<lparr>data := Some equal_protein_df\<rparr>"
  let ?xs = "[Some 7, Some 30, Some 7, Some 2] :: rat option list"
  have h1: "data ?p = Some equal_protein_df" by simp
  have h2: "wf_df equal_protein_df" by (simp add: wf_df_def nrows_def equal_protein_df_def)
  have h3: "map_of equal_protein_df (''Protein'' @ ''(g)'') = Some (NumCol ?xs)"
    by (simp add: equal_protein_df_def)
  have ev: "get_top_recipes_by_nutrient ''Protein'' (clamp_n 3) ?p =
     Inr [[(''recipe_name'', VStr ''B''), (''diet_type'', VStr ''Unknown''),
           (''cuisine_type'', VStr ''Unknown''), (''nutrient_value'', VNum 30),
           (''nutrient_type'', VStr ''Protein'')],
          [(''recipe_name'', VStr ''A''), (''diet_type'', VStr ''Unknown''),
           (''cuisine_type'', VStr ''Unknown''), (''nutrient_value'', VNum 7),
           (''nutrient_type'', VStr ''Protein'')],
          [(''recipe_name'', VStr ''C''), (''diet_type'', VStr ''Unknown''),
           (''cuisine_type'', VStr ''Unknown''), (''nutrient_value'', VNum 7),
           (''nutrient_type'', VStr ''Protein'')]]"
    by code_simp
  from top_recipes_sorted [OF h1 h2, of "''Protein''" 3] h3
  have "\<exists>idxs. get_top_recipes_by_nutrient ''Protein'' (clamp_n 3) ?p
            = Inr (map (top_entry equal_protein_df ?xs ''Protein'') idxs) \<and>
          length idxs = min (nat (clamp_n 3)) (nrows equal_protein_df) \<and>
          desc_stable ?xs idxs"
    by blast
  with h1 h2 h3 ev show ?thesis by blast
qed

text \<open>
  C2 as stated fails when the column named by the nutrient holds text: on a cleaned table
  of three rows with such a column the call raises TypeError instead of returning one row.
\<close>

theorem top_recipes_text_counterexample:
  "clean_data (new_processor\<lparr>data := Some fiber_df\<rparr>)
     = (None, new_processor\<lparr>data := Some fiber_df\<rparr>) \<and>
   nrows fiber_df = 3 \<and>
   get_top_recipes_by_nutrient ''Fiber'' (clamp_n 1) (new_processor\<lparr>data := Some fiber_df\<rparr>)
     = Inl TypeError"
proof -
  let ?p = "new_processor\<lparr>data := Some fiber_df\<rparr>"
  have nm: "no_missing fiber_df" by (simp add: no_missing_def fiber_df_def example_df_def)
  have d: "data ?p = Some fiber_df" by simp
  have n: "numeric_cols_numeric fiber_df"
    by (simp add: numeric_cols_numeric_def numeric_cols_def fiber_df_def example_df_def)
  from clean_data_no_missing [OF d nm] have s: "snd (clean_data ?p) = ?p" .
  have "fst (clean_numeric numeric_cols fiber_df) = None"
    by (rule clean_numeric_completes) (rule numeric_cols_numeric_mean [OF n])
  then have "fst (clean_data ?p) = None"
    by (auto simp: clean_data_def split: prod.splits option.splits)
  with s have 1: "clean_data ?p = (None, ?p)" by (metis prod.collapse)
  have 2: "nrows fiber_df = 3" by (simp add: nrows_def fiber_df_def example_df_def)
  have 3: "get_top_recipes_by_nutrient ''Fiber'' (clamp_n 1) ?p = Inl TypeError"
    by (simp add: get_top_recipes_by_nutrient_def fiber_df_def example_df_def nlargest_def)
  from 1 2 3 show ?thesis by blast
qed

end
